theory Spec2Isabelle
  imports Complex_Main "HOL-Library.AList"
begin

section \<open>Daily Motion: dates, clock and the stored data\<close>

text \<open>
  The program exchanges calendar dates as strings \<^verbatim>\<open>yyyy-MM-dd\<close> and only ever compares
  them for equality or walks them day by day. A calendar date is represented here by its day
  number (days since 1970-01-01, a Thursday), the string being its image under formatting.
  An instant is a clock reading in milliseconds since the epoch; \<^verbatim>\<open>new Date()\<close> and
  \<^verbatim>\<open>Date.now()\<close> are modelled by passing the reading \<open>now\<close> explicitly, one reading for
  each call of a callback or handler. The server formats in UTC (\<^verbatim>\<open>toISOString\<close>), which
  is \<open>format_date\<close>. The browser formats in local time (\<^verbatim>\<open>format\<close> of date-fns): in a zone
  of constant offset that is \<open>format_date\<close> of the instant measured in that zone, and the
  functions of the client are written with it; \<open>format_in_zone\<close> formats in a zone whose
  offset changes, and is used where a day of 23 or 25 hours matters.
\<close>

type_synonym date = int
type_synonym instant = int

definition format_date :: "instant \<Rightarrow> date" where
  \<comment> \<open>\<^verbatim>\<open>format(d, "yyyy-MM-dd")\<close> and \<^verbatim>\<open>d.toISOString().split("T")[0]\<close>\<close>
  "format_date t = t div 86400000"

definition format_in_zone :: "(instant \<Rightarrow> int) \<Rightarrow> instant \<Rightarrow> date" where
  \<comment> \<open>\<^verbatim>\<open>format(d, "yyyy-MM-dd")\<close> of date-fns, which formats in local time, for an instant
      in UTC milliseconds; \<open>offset t\<close> is what local time is ahead of UTC at \<open>t\<close>\<close>
  "format_in_zone offset t = (t + offset t) div 86400000"

record ActivityType =
  at_id :: string
  at_userId :: "string option"
  at_name :: string
  at_icon :: string
  at_color :: string
  at_category :: string
  at_isDefault :: bool

record ActivityLog =
  log_id :: string
  log_userId :: "string option"
  log_activityTypeId :: string
  log_date :: date
  log_minutes :: int
  log_notes :: "string option"
  log_createdAt :: instant

record Streak =
  currentStreak :: int
  longestStreak :: int
  lastActiveDate :: "date option"

section \<open>Client: the activity context (src/unnamed/part_002)\<close>

subsection \<open>Streak\<close>

definition defaultStreak :: Streak where
  "defaultStreak = \<lparr>currentStreak = 0, longestStreak = 0, lastActiveDate = None\<rparr>"

definition updateStreak :: "instant \<Rightarrow> date \<Rightarrow> Streak \<Rightarrow> Streak" where
  \<comment> \<open>the argument \<open>date\<close> is the log's date; the body never reads it\<close>
  "updateStreak now date prev =
     (let today = format_date now;
          yesterday = format_date (now - 86400000)
      in if lastActiveDate prev = Some today then prev
         else
           let newStreak =
                 (if lastActiveDate prev = Some yesterday \<or> lastActiveDate prev = None
                  then currentStreak prev + 1
                  else if lastActiveDate prev \<noteq> Some today then 1
                  else currentStreak prev)
           in \<lparr>currentStreak = newStreak,
               longestStreak = max newStreak (longestStreak prev),
               lastActiveDate = Some today\<rparr>)"

definition updateStreak_in_zone :: "(instant \<Rightarrow> int) \<Rightarrow> instant \<Rightarrow> date \<Rightarrow> Streak \<Rightarrow> Streak" where
  \<comment> \<open>the same function in a browser whose zone has the offsets \<open>offset\<close>, \<open>now\<close> in UTC\<close>
  "updateStreak_in_zone offset now date prev =
     (let today = format_in_zone offset now;
          yesterday = format_in_zone offset (now - 86400000)
      in if lastActiveDate prev = Some today then prev
         else
           let newStreak =
                 (if lastActiveDate prev = Some yesterday \<or> lastActiveDate prev = None
                  then currentStreak prev + 1
                  else if lastActiveDate prev \<noteq> Some today then 1
                  else currentStreak prev)
           in \<lparr>currentStreak = newStreak,
               longestStreak = max newStreak (longestStreak prev),
               lastActiveDate = Some today\<rparr>)"

definition us_eastern_2024 :: "instant \<Rightarrow> int" where
  \<comment> \<open>the offsets of New York around the end of daylight saving time in 2024: four hours
      behind UTC before 3 November 06:00 UTC, five hours behind from then on\<close>
  "us_eastern_2024 t = (if t < 1730613600000 then - 14400000 else - 18000000)"

subsection \<open>State of the provider and its updates\<close>

text \<open>
  The provider holds three pieces of React state: \<open>activities\<close>, \<open>logs\<close> and \<open>streak\<close>.
  Each callback is modelled as a function from the state to the updated state.
\<close>

record ActivityState =
  activities :: "ActivityType list"
  logs :: "ActivityLog list"
  streak :: Streak

record NewLog =
  new_activityTypeId :: string
  new_date :: date
  new_minutes :: int
  new_notes :: "string option"

definition digit_char :: "int \<Rightarrow> char" where
  "digit_char n = char_of (48 + n)"

function show_digits :: "int \<Rightarrow> string" where
  \<comment> \<open>the decimal digits of a number that is not negative\<close>
  "show_digits n =
     (if n < 10 then [digit_char n] else show_digits (n div 10) @ [digit_char (n mod 10)])"
  by pat_completeness auto
termination
  by (relation "measure nat") auto

declare show_digits.simps [simp del]

definition show_int :: "int \<Rightarrow> string" where
  \<comment> \<open>the decimal text a template literal inserts for an integral number\<close>
  "show_int i = (if i < 0 then CHR ''-'' # show_digits (- i) else show_digits i)"

definition addLog :: "string option \<Rightarrow> instant \<Rightarrow> NewLog \<Rightarrow> ActivityState \<Rightarrow> ActivityState" where
  \<comment> \<open>\<open>user\<close> is \<^verbatim>\<open>user?.id || null\<close>, \<open>entry\<close> the log without id, user and creation time\<close>
  "addLog user now entry s =
     (let newLog = \<lparr>log_id = ''log-'' @ show_int now,
                     log_userId = user,
                     log_activityTypeId = new_activityTypeId entry,
                     log_date = new_date entry,
                     log_minutes = new_minutes entry,
                     log_notes = new_notes entry,
                     log_createdAt = now\<rparr>
      in s\<lparr>logs := logs s @ [newLog],
           streak := updateStreak now (new_date entry) (streak s)\<rparr>)"

record NewActivity =
  new_name :: string
  new_icon :: string
  new_color :: string
  new_category :: string

definition addActivity :: "string option \<Rightarrow> instant \<Rightarrow> NewActivity \<Rightarrow> ActivityState \<Rightarrow> ActivityState" where
  "addActivity user now activity s =
     (let newActivity = \<lparr>at_id = ''custom-'' @ show_int now,
                          at_userId = user,
                          at_name = new_name activity,
                          at_icon = new_icon activity,
                          at_color = new_color activity,
                          at_category = new_category activity,
                          at_isDefault = False\<rparr>
      in s\<lparr>activities := activities s @ [newActivity]\<rparr>)"

definition deleteLog :: "string \<Rightarrow> ActivityState \<Rightarrow> ActivityState" where
  "deleteLog logId s = s\<lparr>logs := filter (\<lambda>log. log_id log \<noteq> logId) (logs s)\<rparr>"

definition getActivityById :: "ActivityType list \<Rightarrow> string \<Rightarrow> ActivityType option" where
  "getActivityById acts i = find (\<lambda>a. at_id a = i) acts"

section \<open>Server: in-memory storage and the log routes (server/storage.ts)\<close>

text \<open>
  A JavaScript \<^verbatim>\<open>Map\<close> keeps its keys in insertion order; it is an association list
  here, \<^verbatim>\<open>set\<close> being \<^const>\<open>AList.update\<close> and \<^verbatim>\<open>delete\<close> being \<^const>\<open>AList.delete\<close>.
  \<^verbatim>\<open>randomUUID()\<close> is an argument \<open>uuid\<close> supplied by the caller. The map of users plays no
  role in what follows and is left out. The counters of a streak row are nullable in the
  schema; the storage only ever writes numbers, and they are integers here.
\<close>

record StreakRow = Streak +
  streak_id :: string
  streak_userId :: string

record InsertStreak =
  ins_userId :: string
  ins_currentStreak :: "int option"
  ins_longestStreak :: "int option"
  ins_lastActiveDate :: "date option"

record MemStorage =
  activityTypes :: "(string \<times> ActivityType) list"
  activityLogs :: "(string \<times> ActivityLog) list"
  streaks :: "(string \<times> StreakRow) list"

definition getActivityTypes :: "MemStorage \<Rightarrow> string option \<Rightarrow> ActivityType list" where
  "getActivityTypes st userId =
     filter (\<lambda>activity. at_isDefault activity \<or> at_userId activity = userId)
       (map snd (activityTypes st))"

definition getActivityLogsByDate :: "MemStorage \<Rightarrow> string \<Rightarrow> date \<Rightarrow> ActivityLog list" where
  "getActivityLogsByDate st userId d =
     filter (\<lambda>log. log_userId log = Some userId \<and> log_date log = d) (map snd (activityLogs st))"


definition createActivityLog :: "string \<Rightarrow> instant \<Rightarrow> string \<Rightarrow> NewLog \<Rightarrow> MemStorage \<Rightarrow> MemStorage" where
  "createActivityLog uuid now userId entry st =
     (let newLog = \<lparr>log_id = uuid,
                     log_userId = Some userId,
                     log_activityTypeId = new_activityTypeId entry,
                     log_date = new_date entry,
                     log_minutes = new_minutes entry,
                     log_notes =
                       (case new_notes entry of
                          None \<Rightarrow> None | Some n \<Rightarrow> if n = [] then None else Some n),
                     log_createdAt = now\<rparr>
      in st\<lparr>activityLogs := AList.update uuid newLog (activityLogs st)\<rparr>)"

definition deleteActivityLog :: "string \<Rightarrow> MemStorage \<Rightarrow> bool \<times> MemStorage" where
  \<comment> \<open>\<^verbatim>\<open>Map.delete\<close> answers whether the key was present\<close>
  "deleteActivityLog i st =
     (map_of (activityLogs st) i \<noteq> None,
      st\<lparr>activityLogs := AList.delete i (activityLogs st)\<rparr>)"

definition getStreak :: "MemStorage \<Rightarrow> string \<Rightarrow> StreakRow option" where
  "getStreak st userId = find (\<lambda>s. streak_userId s = userId) (map snd (streaks st))"

definition createOrUpdateStreak :: "string \<Rightarrow> InsertStreak \<Rightarrow> MemStorage \<Rightarrow> MemStorage" where
  "createOrUpdateStreak uuid streakData st =
     (case getStreak st (ins_userId streakData) of
        Some s \<Rightarrow>
          let s' = s\<lparr>currentStreak :=
                       (case ins_currentStreak streakData of Some c \<Rightarrow> c | None \<Rightarrow> currentStreak s),
                     longestStreak :=
                       (case ins_longestStreak streakData of Some l \<Rightarrow> l | None \<Rightarrow> longestStreak s),
                     lastActiveDate :=
                       (case ins_lastActiveDate streakData of Some d \<Rightarrow> Some d
                        | None \<Rightarrow> lastActiveDate s)\<rparr>
          in st\<lparr>streaks := AList.update (streak_id s') s' (streaks st)\<rparr>
      | None \<Rightarrow>
          let s' = \<lparr>currentStreak = (case ins_currentStreak streakData of Some c \<Rightarrow> c | None \<Rightarrow> 0),
                    longestStreak = (case ins_longestStreak streakData of Some l \<Rightarrow> l | None \<Rightarrow> 0),
                    lastActiveDate = ins_lastActiveDate streakData,
                    streak_id = uuid,
                    streak_userId = ins_userId streakData\<rparr>
          in st\<lparr>streaks := AList.update uuid s' (streaks st)\<rparr>)"

definition post_logs :: "instant \<Rightarrow> string \<Rightarrow> string \<Rightarrow> string \<Rightarrow> NewLog \<Rightarrow> MemStorage \<Rightarrow> MemStorage" where
  \<comment> \<open>\<^verbatim>\<open>POST /api/logs\<close> after authentication and schema validation, for user \<open>userId\<close>;
      \<open>uuid1\<close> and \<open>uuid2\<close> are the identifiers drawn for the log and for a new streak row\<close>
  "post_logs now uuid1 uuid2 userId body st =
     (let st1 = createActivityLog uuid1 now userId body st;
          today = format_date now
      in if new_date body = today then
           let streak = getStreak st1 userId;
               yesterday = format_date (now - 86400000);
               currentStreak0 = (1::int);
               longestStreak0 = (case streak of Some s \<Rightarrow> longestStreak s | None \<Rightarrow> 0);
               currentStreak1 =
                 (case streak of
                    Some s \<Rightarrow>
                      if lastActiveDate s = Some today then currentStreak s
                      else if lastActiveDate s = Some yesterday then currentStreak s + 1
                      else currentStreak0
                  | None \<Rightarrow> currentStreak0);
               longestStreak1 = max currentStreak1 longestStreak0
           in createOrUpdateStreak uuid2
                \<lparr>ins_userId = userId,
                 ins_currentStreak = Some currentStreak1,
                 ins_longestStreak = Some longestStreak1,
                 ins_lastActiveDate = Some today\<rparr> st1
         else st1)"

definition delete_logs :: "string \<Rightarrow> MemStorage \<Rightarrow> nat \<times> MemStorage" where
  \<comment> \<open>\<^verbatim>\<open>DELETE /api/logs/:id\<close>; the first component is the HTTP status\<close>
  "delete_logs i st =
     (case deleteActivityLog i st of
        (deleted, st') \<Rightarrow> if \<not> deleted then (404, st') else (200, st'))"

definition get_streak :: "MemStorage \<Rightarrow> string \<Rightarrow> Streak" where
  \<comment> \<open>\<^verbatim>\<open>GET /api/streak\<close>: the stored row, or the default when there is none\<close>
  "get_streak st userId =
     (case getStreak st userId of Some s \<Rightarrow> Streak.truncate s | None \<Rightarrow> defaultStreak)"

section \<open>JavaScript values used by the statistics\<close>

subsection \<open>Objects used as dictionaries\<close>

text \<open>
  The statistics accumulate minutes in plain objects keyed by activity-type id and read them
  back with \<^verbatim>\<open>Object.entries\<close>. An object is the list of its own properties in creation
  order. \<^verbatim>\<open>Object.entries\<close> lists the keys that are array indices (canonical decimal
  numerals below \<open>2\<^sup>3\<^sup>2 - 1\<close>, such as the ids \<^verbatim>\<open>"1"\<close> to \<^verbatim>\<open>"10"\<close> of the client's
  default activities) first, in ascending numeric order, and the other keys after them in
  creation order. Keys are activity-type ids; names inherited from \<^verbatim>\<open>Object.prototype\<close>
  are not among them.
\<close>

definition add_minutes :: "(string \<times> int) list \<Rightarrow> string \<Rightarrow> int \<Rightarrow> (string \<times> int) list" where
  \<comment> \<open>\<^verbatim>\<open>obj[k] = (obj[k] || 0) + m\<close>\<close>
  "add_minutes obj k m = AList.update k ((case map_of obj k of Some v \<Rightarrow> v | None \<Rightarrow> 0) + m) obj"

definition is_digit :: "char \<Rightarrow> bool" where
  "is_digit c = (48 \<le> (of_char c :: int) \<and> (of_char c :: int) \<le> 57)"

definition parse_nat :: "string \<Rightarrow> int" where
  \<comment> \<open>the value of a string of decimal digits\<close>
  "parse_nat k = foldl (\<lambda>n c. 10 * n + (of_char c - 48)) 0 k"

definition is_array_index :: "string \<Rightarrow> bool" where
  "is_array_index k =
     (case k of
        [] \<Rightarrow> False
      | c # cs \<Rightarrow> list_all is_digit k \<and> (if c = CHR ''0'' then cs = [] else True)
                 \<and> parse_nat k < 4294967295)"

definition object_entries :: "(string \<times> 'v) list \<Rightarrow> (string \<times> 'v) list" where
  "object_entries obj =
     sort_key (\<lambda>(k, v). parse_nat k) (filter (\<lambda>(k, v). is_array_index k) obj)
       @ filter (\<lambda>(k, v). \<not> is_array_index k) obj"

subsection \<open>Numbers\<close>

text \<open>
  Minutes are integers. A quotient is a \<open>number\<close>: either finite, or one of the three values
  a division by zero produces. Finite values are exact rationals; the rounding of IEEE
  doubles is not modelled.
\<close>

datatype number = Finite rat | PosInfinity | NegInfinity | NaN

definition js_div :: "int \<Rightarrow> int \<Rightarrow> number" where
  "js_div a b =
     (if b = 0 then (if a > 0 then PosInfinity else if a < 0 then NegInfinity else NaN)
      else Finite (of_int a / of_int b))"

fun js_mul :: "number \<Rightarrow> int \<Rightarrow> number" where
  "js_mul (Finite x) k = Finite (x * of_int k)"
| "js_mul PosInfinity k = (if k > 0 then PosInfinity else if k < 0 then NegInfinity else NaN)"
| "js_mul NegInfinity k = (if k > 0 then NegInfinity else if k < 0 then PosInfinity else NaN)"
| "js_mul NaN k = NaN"

fun js_gt :: "number \<Rightarrow> rat \<Rightarrow> bool" where
  "js_gt (Finite x) c = (x > c)"
| "js_gt PosInfinity c = True"
| "js_gt NegInfinity c = False"
| "js_gt NaN c = False"

fun js_lt :: "number \<Rightarrow> rat \<Rightarrow> bool" where
  "js_lt (Finite x) c = (x < c)"
| "js_lt PosInfinity c = False"
| "js_lt NegInfinity c = True"
| "js_lt NaN c = False"

fun show_round :: "number \<Rightarrow> string" where
  \<comment> \<open>the text of \<^verbatim>\<open>Math.round(x)\<close> in a template literal (plain decimal notation)\<close>
  "show_round (Finite x) = show_int \<lfloor>x + 1 / 2\<rfloor>"
| "show_round PosInfinity = ''Infinity''"
| "show_round NegInfinity = ''-Infinity''"
| "show_round NaN = ''NaN''"

fun show_abs_round :: "number \<Rightarrow> string" where
  \<comment> \<open>the text of \<^verbatim>\<open>Math.abs(Math.round(x))\<close>\<close>
  "show_abs_round (Finite x) = show_int \<bar>\<lfloor>x + 1 / 2\<rfloor>\<bar>"
| "show_abs_round PosInfinity = ''Infinity''"
| "show_abs_round NegInfinity = ''Infinity''"
| "show_abs_round NaN = ''NaN''"

subsection \<open>Reading a property of a value that may be undefined\<close>

text \<open>
  \<^verbatim>\<open>a.activityType.category\<close> throws a TypeError when \<^verbatim>\<open>a.activityType\<close> is undefined.
  Functions of the client that read such a property return \<open>error + 'a\<close>; an array method
  whose callback throws stops at the first element that does.
\<close>

datatype error = TypeError

definition bind_e :: "error + 'a \<Rightarrow> ('a \<Rightarrow> error + 'b) \<Rightarrow> error + 'b" where
  "bind_e m f = (case m of Inl e \<Rightarrow> Inl e | Inr x \<Rightarrow> f x)"

definition category_of :: "ActivityType option \<Rightarrow> error + string" where
  "category_of t = (case t of None \<Rightarrow> Inl TypeError | Some a \<Rightarrow> Inr (at_category a))"

definition name_of :: "ActivityType option \<Rightarrow> error + string" where
  "name_of t = (case t of None \<Rightarrow> Inl TypeError | Some a \<Rightarrow> Inr (at_name a))"

fun filter_e :: "('a \<Rightarrow> error + bool) \<Rightarrow> 'a list \<Rightarrow> error + 'a list" where
  "filter_e p [] = Inr []"
| "filter_e p (x # xs) =
     bind_e (p x) (\<lambda>b. bind_e (filter_e p xs) (\<lambda>ys. Inr (if b then x # ys else ys)))"

fun find_e :: "('a \<Rightarrow> error + bool) \<Rightarrow> 'a list \<Rightarrow> error + 'a option" where
  "find_e p [] = Inr None"
| "find_e p (x # xs) = bind_e (p x) (\<lambda>b. if b then Inr (Some x) else find_e p xs)"

fun map_e :: "('a \<Rightarrow> error + 'b) \<Rightarrow> 'a list \<Rightarrow> error + 'b list" where
  "map_e f [] = Inr []"
| "map_e f (x # xs) = bind_e (f x) (\<lambda>y. bind_e (map_e f xs) (\<lambda>ys. Inr (y # ys)))"

section \<open>Client: daily statistics\<close>

record ActivityWithTime =
  awt_activityType :: "ActivityType option"
  awt_minutes :: int
  awt_percentage :: number

record DailyStats =
  ds_date :: date
  ds_totalMinutes :: int
  ds_activities :: "ActivityWithTime list"
  ds_productiveMinutes :: int
  ds_leisureMinutes :: int

definition getDailyStats :: "ActivityType list \<Rightarrow> ActivityLog list \<Rightarrow> date \<Rightarrow> error + DailyStats" where
  \<comment> \<open>\<open>acts\<close> and \<open>lgs\<close> are the activities and logs of the provider's state, which the
      callback closes over\<close>
  "getDailyStats acts lgs d =
     (let dayLogs = filter (\<lambda>log. log_date log = d) lgs;
          totalMinutes = foldl (\<lambda>sum log. sum + log_minutes log) 0 dayLogs;
          activityBreakdown =
            foldl (\<lambda>obj log. add_minutes obj (log_activityTypeId log) (log_minutes log)) [] dayLogs;
          activitiesWithTime =
            filter (\<lambda>a. awt_activityType a \<noteq> None)
              (map (\<lambda>(activityTypeId, minutes).
                      \<lparr>awt_activityType = getActivityById acts activityTypeId,
                       awt_minutes = minutes,
                       awt_percentage =
                         (if totalMinutes > 0 then js_mul (js_div minutes totalMinutes) 100
                          else Finite 0)\<rparr>)
                 (object_entries activityBreakdown))
      in bind_e (filter_e (\<lambda>a. bind_e (category_of (awt_activityType a))
                                  (\<lambda>c. Inr (c = ''productive''))) activitiesWithTime)
           (\<lambda>productive.
              bind_e (filter_e (\<lambda>a. bind_e (category_of (awt_activityType a))
                                       (\<lambda>c. Inr (c = ''leisure''))) activitiesWithTime)
                (\<lambda>leisure.
                   Inr \<lparr>ds_date = d,
                        ds_totalMinutes = totalMinutes,
                        ds_activities = activitiesWithTime,
                        ds_productiveMinutes = foldl (\<lambda>sum a. sum + awt_minutes a) 0 productive,
                        ds_leisureMinutes = foldl (\<lambda>sum a. sum + awt_minutes a) 0 leisure\<rparr>)))"

section \<open>Server: daily statistics route\<close>

definition get_activity_daily :: "MemStorage \<Rightarrow> string \<Rightarrow> date \<Rightarrow> DailyStats" where
  \<comment> \<open>\<^verbatim>\<open>GET /api/activity/daily\<close> for user \<open>userId\<close>; the route reads the category with
      \<^verbatim>\<open>?.\<close>, which yields undefined instead of throwing\<close>
  "get_activity_daily st userId d =
     (let logs = getActivityLogsByDate st userId d;
          activities = getActivityTypes st (Some userId);
          totalMinutes = foldl (\<lambda>sum log. sum + log_minutes log) 0 logs;
          activityBreakdown =
            foldl (\<lambda>obj log. add_minutes obj (log_activityTypeId log) (log_minutes log)) [] logs;
          activitiesWithTime =
            filter (\<lambda>a. awt_activityType a \<noteq> None)
              (map (\<lambda>(activityTypeId, minutes).
                      \<lparr>awt_activityType = find (\<lambda>a. at_id a = activityTypeId) activities,
                       awt_minutes = minutes,
                       awt_percentage =
                         (if totalMinutes > 0 then js_mul (js_div minutes totalMinutes) 100
                          else Finite 0)\<rparr>)
                 (object_entries activityBreakdown));
          productiveMinutes =
            foldl (\<lambda>sum a. sum + awt_minutes a) 0
              (filter (\<lambda>a. map_option at_category (awt_activityType a) = Some ''productive'')
                 activitiesWithTime);
          leisureMinutes =
            foldl (\<lambda>sum a. sum + awt_minutes a) 0
              (filter (\<lambda>a. map_option at_category (awt_activityType a) = Some ''leisure'')
                 activitiesWithTime)
      in \<lparr>ds_date = d,
          ds_totalMinutes = totalMinutes,
          ds_activities = activitiesWithTime,
          ds_productiveMinutes = productiveMinutes,
          ds_leisureMinutes = leisureMinutes\<rparr>)"

section \<open>Calendar functions of date-fns on day numbers\<close>

text \<open>
  A \<^verbatim>\<open>Date\<close> passed to the weekly and monthly statistics is used at the granularity of
  days only: \<^verbatim>\<open>startOfWeek\<close> and \<^verbatim>\<open>startOfMonth\<close> move to midnight, \<^verbatim>\<open>endOfWeek\<close> and
  \<^verbatim>\<open>endOfMonth\<close> to the last millisecond of their day, and \<^verbatim>\<open>parseISO\<close> of a log's date
  is the midnight of that day. So a \<^verbatim>\<open>Date\<close> is a day number here, and comparing two of
  them compares days.
\<close>

definition getDay :: "date \<Rightarrow> int" where
  \<comment> \<open>0 is Sunday; day 0 (1970-01-01) is a Thursday\<close>
  "getDay d = (d + 4) mod 7"

definition startOfWeek :: "date \<Rightarrow> int \<Rightarrow> date" where
  "startOfWeek d weekStartsOn =
     (let day = getDay d;
          diff = (if day < weekStartsOn then 7 else 0) + day - weekStartsOn
      in d - diff)"

definition endOfWeek :: "date \<Rightarrow> int \<Rightarrow> date" where
  "endOfWeek d weekStartsOn =
     (let day = getDay d;
          diff = (if day < weekStartsOn then - 7 else 0) + 6 - (day - weekStartsOn)
      in d + diff)"

definition subWeeks :: "date \<Rightarrow> int \<Rightarrow> date" where
  "subWeeks d amount = d - 7 * amount"

definition eachDayOfInterval :: "date \<Rightarrow> date \<Rightarrow> date list" where
  "eachDayOfInterval start_day end_day = [start_day..end_day]"

definition civil_from_days :: "date \<Rightarrow> int \<times> int \<times> int" where
  \<comment> \<open>year, month (1 to 12) and day of the month of a day number, in the proleptic
      Gregorian calendar\<close>
  "civil_from_days z0 =
     (let z = z0 + 719468;
          era = z div 146097;
          doe = z - era * 146097;
          yoe = (doe - doe div 1460 + doe div 36524 - doe div 146096) div 365;
          doy = doe - (365 * yoe + yoe div 4 - yoe div 100);
          mp = (5 * doy + 2) div 153;
          dd = doy - (153 * mp + 2) div 5 + 1;
          m = (if mp < 10 then mp + 3 else mp - 9);
          y = yoe + era * 400 + (if m \<le> 2 then 1 else 0)
      in (y, m, dd))"

definition getDaysInMonth :: "int \<Rightarrow> int \<Rightarrow> int" where
  "getDaysInMonth y m =
     (if m = 2 then
        (if y mod 400 = 0 then 29 else if y mod 100 = 0 then 28 else if y mod 4 = 0 then 29 else 28)
      else if m = 4 \<or> m = 6 \<or> m = 9 \<or> m = 11 then 30 else 31)"

definition startOfMonth :: "date \<Rightarrow> date" where
  "startOfMonth d = (case civil_from_days d of (y, m, dd) \<Rightarrow> d - (dd - 1))"

definition endOfMonth :: "date \<Rightarrow> date" where
  "endOfMonth d = (case civil_from_days d of (y, m, dd) \<Rightarrow> d - (dd - 1) + getDaysInMonth y m - 1)"

definition format_month :: "date \<Rightarrow> int \<times> int" where
  \<comment> \<open>\<^verbatim>\<open>format(date, "yyyy-MM")\<close>: the year and the month\<close>
  "format_month d = (case civil_from_days d of (y, m, dd) \<Rightarrow> (y, m))"

section \<open>Client: weekly statistics\<close>

record WeeklyActivity =
  wa_activityType :: "ActivityType option"
  wa_minutes :: int
  wa_previousWeekMinutes :: int
  wa_changePercentage :: number

record WeeklyStats =
  ws_startDate :: date
  ws_endDate :: date
  ws_totalMinutes :: int
  ws_dailyBreakdown :: "DailyStats list"
  ws_activityBreakdown :: "WeeklyActivity list"
  ws_insights :: "string list"

fun change_insights :: "WeeklyActivity list \<Rightarrow> error + string list" where
  \<comment> \<open>the \<^verbatim>\<open>forEach\<close> that pushes one sentence per activity whose change exceeds 20 percent\<close>
  "change_insights [] = Inr []"
| "change_insights (activity # rest) =
     bind_e
       (if js_gt (wa_changePercentage activity) 20 then
          bind_e (name_of (wa_activityType activity))
            (\<lambda>n. Inr [''You spent '' @ show_round (wa_changePercentage activity)
                         @ ''% more time on '' @ n @ '' compared to last week.''])
        else if js_lt (wa_changePercentage activity) (- 20) then
          bind_e (name_of (wa_activityType activity))
            (\<lambda>n. Inr [''You reduced '' @ n @ '' by ''
                         @ show_abs_round (wa_changePercentage activity) @ ''% from last week.''])
        else Inr [])
       (\<lambda>pushed. bind_e (change_insights rest) (\<lambda>more. Inr (pushed @ more)))"

definition generateWeeklyInsights :: "WeeklyActivity list \<Rightarrow> int \<Rightarrow> error + string list" where
  "generateWeeklyInsights activityBreakdown totalMinutes =
     bind_e (change_insights activityBreakdown)
       (\<lambda>insights1.
          bind_e (filter_e (\<lambda>a. bind_e (category_of (wa_activityType a))
                                   (\<lambda>c. Inr (c = ''leisure''))) activityBreakdown)
            (\<lambda>leisureActivities.
               let leisureTotal = foldl (\<lambda>sum a. sum + wa_minutes a) 0 leisureActivities;
                   insights2 = insights1 @
                     (if (of_int leisureTotal :: rat) > of_int totalMinutes * (2 / 5)
                      then [''You'' @ [CHR 0x27] @ ''re spending a lot of time on leisure activities. Consider balancing with productive tasks.'']
                      else [])
               in bind_e (filter_e (\<lambda>a. bind_e (category_of (wa_activityType a))
                                           (\<lambda>c. Inr (c = ''health''))) activityBreakdown)
                    (\<lambda>healthActivities.
                       let healthTotal = foldl (\<lambda>sum a. sum + wa_minutes a) 0 healthActivities;
                           insights3 = insights2 @
                             (if healthTotal < 180
                              then [''Try to add more health-focused activities like exercise or meditation.'']
                              else []);
                           insights4 =
                             (if length insights3 = 0
                              then [''Great job maintaining a balanced week!'']
                              else insights3)
                       in Inr (take 3 insights4))))"

definition getWeeklyStats :: "ActivityType list \<Rightarrow> ActivityLog list \<Rightarrow> date \<Rightarrow> error + WeeklyStats" where
  "getWeeklyStats acts lgs d =
     (let weekStart = startOfWeek d 1;
          weekEnd = endOfWeek d 1;
          prevWeekStart = subWeeks weekStart 1;
          prevWeekEnd = subWeeks weekEnd 1;
          daysInWeek = eachDayOfInterval weekStart weekEnd
      in bind_e (map_e (\<lambda>day. getDailyStats acts lgs day) daysInWeek)
           (\<lambda>dailyBreakdown.
              let totalMinutes = foldl (\<lambda>sum day. sum + ds_totalMinutes day) 0 dailyBreakdown;
                  byActivity =
                    foldl (\<lambda>(currentWeekByActivity, prevWeekByActivity) log.
                             if weekStart \<le> log_date log \<and> log_date log \<le> weekEnd then
                               (add_minutes currentWeekByActivity (log_activityTypeId log)
                                  (log_minutes log), prevWeekByActivity)
                             else if prevWeekStart \<le> log_date log \<and> log_date log \<le> prevWeekEnd then
                               (currentWeekByActivity,
                                add_minutes prevWeekByActivity (log_activityTypeId log)
                                  (log_minutes log))
                             else (currentWeekByActivity, prevWeekByActivity))
                      ([], []) lgs;
                  currentWeekByActivity = fst byActivity;
                  prevWeekByActivity = snd byActivity;
                  activityBreakdown =
                    sort_key (\<lambda>a. - wa_minutes a)
                      (filter (\<lambda>a. wa_activityType a \<noteq> None)
                         (map (\<lambda>(activityTypeId, minutes).
                                 let previousWeekMinutes =
                                       (case map_of prevWeekByActivity activityTypeId of
                                          Some v \<Rightarrow> v | None \<Rightarrow> 0);
                                     changePercentage =
                                       (if previousWeekMinutes > 0
                                        then js_mul (js_div (minutes - previousWeekMinutes)
                                                       previousWeekMinutes) 100
                                        else if minutes > 0 then Finite 100 else Finite 0)
                                 in \<lparr>wa_activityType = getActivityById acts activityTypeId,
                                     wa_minutes = minutes,
                                     wa_previousWeekMinutes = previousWeekMinutes,
                                     wa_changePercentage = changePercentage\<rparr>)
                            (object_entries currentWeekByActivity)))
              in bind_e (generateWeeklyInsights activityBreakdown totalMinutes)
                   (\<lambda>insights.
                      Inr \<lparr>ws_startDate = weekStart,
                           ws_endDate = weekEnd,
                           ws_totalMinutes = totalMinutes,
                           ws_dailyBreakdown = dailyBreakdown,
                           ws_activityBreakdown = activityBreakdown,
                           ws_insights = insights\<rparr>)))"

section \<open>Client: monthly statistics\<close>

record HeatmapDay =
  hm_date :: date
  hm_minutes :: int

record TopActivity =
  ta_activityType :: "ActivityType option"
  ta_minutes :: int

record MonthlyStats =
  ms_month :: "int \<times> int"
  ms_totalMinutes :: int
  ms_dailyHeatmap :: "HeatmapDay list"
  ms_mostProductiveDay :: "date option"
  ms_leastProductiveDay :: "date option"
  ms_topActivities :: "TopActivity list"
  ms_suggestions :: "string list"

definition generateMonthlySuggestions :: "TopActivity list \<Rightarrow> int \<Rightarrow> error + string list" where
  "generateMonthlySuggestions topActivities totalMinutes =
     bind_e (find_e (\<lambda>a. bind_e (name_of (ta_activityType a))
                           (\<lambda>n. Inr (n = ''Social Media'' \<or> n = ''Gaming''))) topActivities)
       (\<lambda>leisureActivity.
          bind_e (case leisureActivity of
                    None \<Rightarrow> Inr []
                  | Some a \<Rightarrow>
                      if (of_int (ta_minutes a) :: rat) > of_int totalMinutes * (1 / 4) then
                        bind_e (name_of (ta_activityType a))
                          (\<lambda>n. Inr [''You spent too much time on '' @ n
                                       @ ''. Try limiting it to improve productivity.''])
                      else Inr [])
            (\<lambda>suggestions1.
               bind_e (find_e (\<lambda>a. bind_e (name_of (ta_activityType a))
                                     (\<lambda>n. Inr (n = ''Sleep''))) topActivities)
                 (\<lambda>sleepActivity.
                    let avgSleepPerDay =
                          (case sleepActivity of
                             Some a \<Rightarrow> js_div (ta_minutes a) 30 | None \<Rightarrow> Finite 0);
                        suggestions2 = suggestions1 @
                          (if js_lt avgSleepPerDay 420
                           then [''Try sleeping earlier. Aim for 7-8 hours for better focus.'']
                           else [])
                    in bind_e (find_e (\<lambda>a. bind_e (name_of (ta_activityType a))
                                             (\<lambda>n. Inr (n = ''Exercise''))) topActivities)
                         (\<lambda>exerciseActivity.
                            let suggestions3 = suggestions2 @
                                  (if (case exerciseActivity of
                                         None \<Rightarrow> True | Some a \<Rightarrow> ta_minutes a < 600)
                                   then [''Add 30 minutes of exercise daily for better balance and energy.'']
                                   else [])
                            in bind_e (filter_e (\<lambda>a. bind_e (category_of (ta_activityType a))
                                                       (\<lambda>c. Inr (c = ''productive'')))
                                         topActivities)
                                 (\<lambda>productiveActivities.
                                    let productiveTotal =
                                          foldl (\<lambda>sum a. sum + ta_minutes a) 0 productiveActivities;
                                        suggestions4 = suggestions3 @
                                          (if (of_int productiveTotal :: rat)
                                                > of_int totalMinutes * (1 / 2)
                                           then [''Great work on staying productive! Keep up the momentum.'']
                                           else []);
                                        suggestions5 =
                                          (if length suggestions4 = 0
                                           then [''You'' @ [CHR 0x27] @ ''re doing great! Keep maintaining your healthy routine.'']
                                           else suggestions4)
                                    in Inr (take 4 suggestions5))))))"

definition getMonthlyStats :: "ActivityType list \<Rightarrow> ActivityLog list \<Rightarrow> date \<Rightarrow> error + MonthlyStats" where
  "getMonthlyStats acts lgs d =
     (let monthStart = startOfMonth d;
          monthEnd = endOfMonth d;
          month = format_month d;
          daysInMonth = eachDayOfInterval monthStart monthEnd;
          dailyHeatmap =
            map (\<lambda>day.
                   let dayLogs = filter (\<lambda>log. log_date log = day) lgs;
                       minutes = foldl (\<lambda>sum log. sum + log_minutes log) 0 dayLogs
                   in \<lparr>hm_date = day, hm_minutes = minutes\<rparr>) daysInMonth;
          totalMinutes = foldl (\<lambda>sum day. sum + hm_minutes day) 0 dailyHeatmap;
          sortedByMinutes =
            sort_key (\<lambda>a. - hm_minutes a) (filter (\<lambda>e. hm_minutes e > 0) dailyHeatmap);
          mostProductiveDay =
            (case sortedByMinutes of [] \<Rightarrow> None | first # rest \<Rightarrow> Some (hm_date first));
          leastProductiveDay =
            (if sortedByMinutes = [] then None else Some (hm_date (last sortedByMinutes)));
          activityTotals =
            foldl (\<lambda>obj log. add_minutes obj (log_activityTypeId log) (log_minutes log)) []
              (filter (\<lambda>log. format_month (log_date log) = month) lgs);
          topActivities =
            take 5
              (sort_key (\<lambda>a. - ta_minutes a)
                 (filter (\<lambda>a. ta_activityType a \<noteq> None)
                    (map (\<lambda>(activityTypeId, minutes).
                            \<lparr>ta_activityType = getActivityById acts activityTypeId,
                             ta_minutes = minutes\<rparr>)
                       (object_entries activityTotals))))
      in bind_e (generateMonthlySuggestions topActivities totalMinutes)
           (\<lambda>suggestions.
              Inr \<lparr>ms_month = month,
                   ms_totalMinutes = totalMinutes,
                   ms_dailyHeatmap = dailyHeatmap,
                   ms_mostProductiveDay = mostProductiveDay,
                   ms_leastProductiveDay = leastProductiveDay,
                   ms_topActivities = topActivities,
                   ms_suggestions = suggestions\<rparr>))"

section \<open>Server: monthly statistics route\<close>

definition generateSuggestions :: "TopActivity list \<Rightarrow> int \<Rightarrow> error + string list" where
  \<comment> \<open>the predicates read the name with \<^verbatim>\<open>?.\<close>; only the sentence about the activity
      that was found reads it plainly\<close>
  "generateSuggestions topActivities totalMinutes =
     (let leisureActivity =
            find (\<lambda>a. map_option at_name (ta_activityType a) = Some ''Social Media''
                     \<or> map_option at_name (ta_activityType a) = Some ''Gaming'') topActivities
      in bind_e (case leisureActivity of
                   None \<Rightarrow> Inr []
                 | Some a \<Rightarrow>
                     if (of_int (ta_minutes a) :: rat) > of_int totalMinutes * (1 / 4) then
                       bind_e (name_of (ta_activityType a))
                         (\<lambda>n. Inr [''You spent too much time on '' @ n
                                      @ ''. Try limiting it to improve productivity.''])
                     else Inr [])
           (\<lambda>suggestions1.
              let sleepActivity =
                    find (\<lambda>a. map_option at_name (ta_activityType a) = Some ''Sleep'') topActivities;
                  avgSleepPerDay =
                    (case sleepActivity of
                       Some a \<Rightarrow> js_div (ta_minutes a) 30 | None \<Rightarrow> Finite 0);
                  suggestions2 = suggestions1 @
                    (if js_lt avgSleepPerDay 420
                     then [''Try sleeping earlier. Aim for 7-8 hours for better focus.'']
                     else []);
                  exerciseActivity =
                    find (\<lambda>a. map_option at_name (ta_activityType a) = Some ''Exercise'')
                      topActivities;
                  suggestions3 = suggestions2 @
                    (if (case exerciseActivity of
                           None \<Rightarrow> True | Some a \<Rightarrow> ta_minutes a < 600)
                     then [''Add 30 minutes of exercise daily for better balance and energy.'']
                     else []);
                  suggestions4 =
                    (if length suggestions3 = 0
                     then [''You'' @ [CHR 0x27] @ ''re doing great! Keep maintaining your healthy routine.'']
                     else suggestions3)
              in Inr (take 4 suggestions4)))"



section \<open>Initial states\<close>

definition default_activity :: "string \<Rightarrow> string \<Rightarrow> string \<Rightarrow> string \<Rightarrow> string \<Rightarrow> ActivityType" where
  "default_activity i n icon color cat =
     \<lparr>at_id = i, at_userId = None, at_name = n, at_icon = icon, at_color = color,
      at_category = cat, at_isDefault = True\<rparr>"

definition defaultActivities :: "ActivityType list" where
  \<comment> \<open>the client's built-in activities\<close>
  "defaultActivities =
     [default_activity ''1'' ''Work'' ''Briefcase'' ''#3B82F6'' ''productive'',
      default_activity ''2'' ''Study'' ''BookOpen'' ''#8B5CF6'' ''productive'',
      default_activity ''3'' ''Exercise'' ''Dumbbell'' ''#14B8A6'' ''health'',
      default_activity ''4'' ''Sleep'' ''Moon'' ''#6366F1'' ''health'',
      default_activity ''5'' ''Reading'' ''Book'' ''#F59E0B'' ''productive'',
      default_activity ''6'' ''Social Media'' ''Smartphone'' ''#EF4444'' ''leisure'',
      default_activity ''7'' ''Gaming'' ''Gamepad2'' ''#EC4899'' ''leisure'',
      default_activity ''8'' ''Meditation'' ''Brain'' ''#10B981'' ''health'',
      default_activity ''9'' ''Cooking'' ''ChefHat'' ''#F97316'' ''other'',
      default_activity ''10'' ''Hobbies'' ''Palette'' ''#8B5CF6'' ''leisure'']"

definition initialState :: ActivityState where
  \<comment> \<open>the provider's state when the browser has nothing stored\<close>
  "initialState = \<lparr>activities = defaultActivities, logs = [], streak = defaultStreak\<rparr>"

definition newMemStorage :: MemStorage where
  \<comment> \<open>the constructor: the default activities under the ids \<^verbatim>\<open>default-1\<close> to \<^verbatim>\<open>default-10\<close>\<close>
  "newMemStorage =
     \<lparr>activityTypes =
        map (\<lambda>(index, a). (''default-'' @ show_int (int index + 1),
                             a\<lparr>at_id := ''default-'' @ show_int (int index + 1)\<rparr>))
          (enumerate 0 defaultActivities),
      activityLogs = [],
      streaks = []\<rparr>"

section \<open>Runs of the program and auxiliary notions\<close>

text \<open>
  A run of the client is a sequence of the provider's callbacks applied to the initial state;
  a run of the server is a sequence of requests to the two routes that write logs, applied to
  the storage as the constructor leaves it.
\<close>

datatype client_event =
    AddActivity "string option" instant NewActivity
  | AddLog "string option" instant NewLog
  | DeleteLog string

fun client_step :: "ActivityState \<Rightarrow> client_event \<Rightarrow> ActivityState" where
  "client_step s (AddActivity user now activity) = addActivity user now activity s"
| "client_step s (AddLog user now entry) = addLog user now entry s"
| "client_step s (DeleteLog logId) = deleteLog logId s"

definition client_run :: "client_event list \<Rightarrow> ActivityState" where
  "client_run evs = foldl client_step initialState evs"

datatype server_event =
    PostLogs instant string string string NewLog
  | DeleteLogs string

fun server_step :: "MemStorage \<Rightarrow> server_event \<Rightarrow> MemStorage" where
  "server_step st (PostLogs now uuid1 uuid2 userId body) = post_logs now uuid1 uuid2 userId body st"
| "server_step st (DeleteLogs i) = snd (delete_logs i st)"

definition server_run :: "server_event list \<Rightarrow> MemStorage" where
  "server_run evs = foldl server_step newMemStorage evs"

definition wf_streaks :: "MemStorage \<Rightarrow> bool" where
  \<comment> \<open>every streak row is stored under its own id\<close>
  "wf_streaks st = list_all (\<lambda>(k, row). streak_id row = k) (streaks st)"

definition streaks_inv :: "MemStorage \<Rightarrow> bool" where
  "streaks_inv st = list_all (\<lambda>(k, row). currentStreak row \<le> longestStreak row) (streaks st)"

definition streaks_dated :: "MemStorage \<Rightarrow> bool" where
  \<comment> \<open>every streak row has a last active date\<close>
  "streaks_dated st = list_all (\<lambda>(k, row). lastActiveDate row \<noteq> None) (streaks st)"

definition deleteLogs :: "string list \<Rightarrow> ActivityState \<Rightarrow> ActivityState" where
  \<comment> \<open>\<open>deleteLog\<close> called once for each id of the list\<close>
  "deleteLogs ids s = foldl (\<lambda>s' i. deleteLog i s') s ids"

definition delete_logs_all :: "string list \<Rightarrow> MemStorage \<Rightarrow> MemStorage" where
  \<comment> \<open>one \<^verbatim>\<open>DELETE /api/logs/:id\<close> request for each id of the list\<close>
  "delete_logs_all ids st = foldl (\<lambda>st' i. snd (delete_logs i st')) st ids"

definition day_breakdown :: "ActivityLog list \<Rightarrow> (string \<times> int) list" where
  \<comment> \<open>the object that accumulates the minutes of a list of logs by activity-type id\<close>
  "day_breakdown xs =
     foldl (\<lambda>obj log. add_minutes obj (log_activityTypeId log) (log_minutes log)) [] xs"

definition with_time :: "(string \<Rightarrow> ActivityType option) \<Rightarrow> int \<Rightarrow> (string \<times> int) list \<Rightarrow> ActivityWithTime list" where
  \<comment> \<open>the entries of such an object joined to their activity types by \<open>lookup\<close>, with their
      share of \<open>tot\<close>; entries without a type are dropped\<close>
  "with_time lookup tot obj =
     filter (\<lambda>a. awt_activityType a \<noteq> None)
       (map (\<lambda>(activityTypeId, minutes).
               \<lparr>awt_activityType = lookup activityTypeId,
                awt_minutes = minutes,
                awt_percentage =
                  (if tot > 0 then js_mul (js_div minutes tot) 100 else Finite 0)\<rparr>)
          (object_entries obj))"

definition daily_of :: "(string \<Rightarrow> ActivityType option) \<Rightarrow> ActivityLog list \<Rightarrow> date \<Rightarrow> DailyStats" where
  \<comment> \<open>the daily statistics of the logs \<open>xs\<close> of one day\<close>
  "daily_of lookup xs d =
     \<lparr>ds_date = d,
      ds_totalMinutes = sum_list (map log_minutes xs),
      ds_activities = with_time lookup (sum_list (map log_minutes xs)) (day_breakdown xs),
      ds_productiveMinutes =
        sum_list (map awt_minutes
          (filter (\<lambda>a. map_option at_category (awt_activityType a) = Some ''productive'')
             (with_time lookup (sum_list (map log_minutes xs)) (day_breakdown xs)))),
      ds_leisureMinutes =
        sum_list (map awt_minutes
          (filter (\<lambda>a. map_option at_category (awt_activityType a) = Some ''leisure'')
             (with_time lookup (sum_list (map log_minutes xs)) (day_breakdown xs))))\<rparr>"

definition server_lookup :: "MemStorage \<Rightarrow> string \<Rightarrow> string \<Rightarrow> ActivityType option" where
  \<comment> \<open>the activity type the server's routes join an id to, for user \<open>userId\<close>\<close>
  "server_lookup st userId k = find (\<lambda>a. at_id a = k) (getActivityTypes st (Some userId))"

definition day_minutes :: "ActivityLog list \<Rightarrow> date \<Rightarrow> int" where
  \<comment> \<open>the minutes logged on a day\<close>
  "day_minutes lgs day = sum_list (map log_minutes (filter (\<lambda>l. log_date l = day) lgs))"

definition week_minutes :: "ActivityLog list \<Rightarrow> string \<Rightarrow> date \<Rightarrow> date \<Rightarrow> int" where
  \<comment> \<open>the minutes logged for one activity type from day \<open>a\<close> to day \<open>b\<close>\<close>
  "week_minutes lgs k a b =
     sum_list (map log_minutes
       (filter (\<lambda>l. log_activityTypeId l = k \<and> a \<le> log_date l \<and> log_date l \<le> b) lgs))"

definition week_objects :: "ActivityLog list \<Rightarrow> date \<Rightarrow> date \<Rightarrow> (string \<times> int) list \<times> (string \<times> int) list" where
  \<comment> \<open>the two objects the weekly statistics accumulate: minutes by activity-type id in the
      week from \<open>weekStart\<close> to \<open>weekEnd\<close>, and in the week before it\<close>
  "week_objects lgs weekStart weekEnd =
     foldl (\<lambda>(currentWeekByActivity, prevWeekByActivity) log.
              if weekStart \<le> log_date log \<and> log_date log \<le> weekEnd then
                (add_minutes currentWeekByActivity (log_activityTypeId log) (log_minutes log),
                 prevWeekByActivity)
              else if subWeeks weekStart 1 \<le> log_date log \<and> log_date log \<le> subWeeks weekEnd 1 then
                (currentWeekByActivity,
                 add_minutes prevWeekByActivity (log_activityTypeId log) (log_minutes log))
              else (currentWeekByActivity, prevWeekByActivity))
       ([], []) lgs"

definition weekly_entry :: "ActivityType list \<Rightarrow> (string \<times> int) list \<Rightarrow> string \<times> int \<Rightarrow> WeeklyActivity" where
  \<comment> \<open>the entry of the weekly breakdown made from one entry of the current week's object\<close>
  "weekly_entry acts prevWeekByActivity =
     (\<lambda>(activityTypeId, minutes).
        let previousWeekMinutes =
              (case map_of prevWeekByActivity activityTypeId of Some v \<Rightarrow> v | None \<Rightarrow> 0);
            changePercentage =
              (if previousWeekMinutes > 0
               then js_mul (js_div (minutes - previousWeekMinutes) previousWeekMinutes) 100
               else if minutes > 0 then Finite 100 else Finite 0)
        in \<lparr>wa_activityType = getActivityById acts activityTypeId,
            wa_minutes = minutes,
            wa_previousWeekMinutes = previousWeekMinutes,
            wa_changePercentage = changePercentage\<rparr>)"

definition weekly_breakdown :: "ActivityType list \<Rightarrow> (string \<times> int) list \<times> (string \<times> int) list \<Rightarrow> WeeklyActivity list" where
  "weekly_breakdown acts objs =
     sort_key (\<lambda>a. - wa_minutes a)
       (filter (\<lambda>a. wa_activityType a \<noteq> None)
          (map (weekly_entry acts (snd objs)) (object_entries (fst objs))))"

definition month_heatmap :: "ActivityLog list \<Rightarrow> date \<Rightarrow> HeatmapDay list" where
  \<comment> \<open>one entry for each day of the month of \<open>d\<close>, with the minutes logged on it\<close>
  "month_heatmap lgs d =
     map (\<lambda>day. \<lparr>hm_date = day, hm_minutes = day_minutes lgs day\<rparr>) [startOfMonth d..endOfMonth d]"

definition sorted_by_minutes :: "ActivityLog list \<Rightarrow> date \<Rightarrow> HeatmapDay list" where
  "sorted_by_minutes lgs d =
     sort_key (\<lambda>a. - hm_minutes a) (filter (\<lambda>e. hm_minutes e > 0) (month_heatmap lgs d))"

definition top_activities :: "ActivityType list \<Rightarrow> ActivityLog list \<Rightarrow> date \<Rightarrow> TopActivity list" where
  "top_activities acts lgs d =
     take 5
       (sort_key (\<lambda>a. - ta_minutes a)
          (filter (\<lambda>a. ta_activityType a \<noteq> None)
             (map (\<lambda>(activityTypeId, minutes).
                     \<lparr>ta_activityType = getActivityById acts activityTypeId,
                      ta_minutes = minutes\<rparr>)
                (object_entries
                   (day_breakdown (filter (\<lambda>l. format_month (log_date l) = format_month d) lgs))))))"






section \<open>The suggestion rules as the specification words them\<close>

definition named :: "string \<Rightarrow> TopActivity \<Rightarrow> bool" where
  "named n a = (map_option at_name (ta_activityType a) = Some n)"

definition rule_limit_leisure :: "TopActivity list \<Rightarrow> int \<Rightarrow> string list" where
  \<comment> \<open>rule 1: a "Social Media" or "Gaming" activity exceeding 25 percent of the monthly total\<close>
  "rule_limit_leisure top_list tot =
     (case find (\<lambda>a. (named ''Social Media'' a \<or> named ''Gaming'' a)
                     \<and> (of_int (ta_minutes a) :: rat) > of_int tot * 25 / 100) top_list of
        None \<Rightarrow> []
      | Some a \<Rightarrow>
          (case ta_activityType a of
             None \<Rightarrow> []
           | Some t \<Rightarrow> [''You spent too much time on '' @ at_name t
                         @ ''. Try limiting it to improve productivity.'']))"

definition rule_sleep :: "TopActivity list \<Rightarrow> string list" where
  \<comment> \<open>rule 2: the Sleep activity's monthly total divided by 30 is below 420\<close>
  "rule_sleep top_list =
     (if (of_int (case find (named ''Sleep'') top_list of Some a \<Rightarrow> ta_minutes a | None \<Rightarrow> 0) :: rat)
           / 30 < 420
      then [''Try sleeping earlier. Aim for 7-8 hours for better focus.'']
      else [])"

definition rule_exercise :: "TopActivity list \<Rightarrow> string list" where
  \<comment> \<open>rule 3: no "Exercise" activity, or its monthly total below 600 minutes\<close>
  "rule_exercise top_list =
     (case find (named ''Exercise'') top_list of
        None \<Rightarrow> [''Add 30 minutes of exercise daily for better balance and energy.'']
      | Some a \<Rightarrow>
          if ta_minutes a < 600
          then [''Add 30 minutes of exercise daily for better balance and energy.'']
          else [])"

definition rule_productive :: "TopActivity list \<Rightarrow> int \<Rightarrow> string list" where
  \<comment> \<open>rule 4: the productive-category total exceeds 50 percent of the monthly total\<close>
  "rule_productive top_list tot =
     (if (of_int (sum_list (map ta_minutes
             (filter (\<lambda>a. map_option at_category (ta_activityType a) = Some ''productive'')
                top_list))) :: rat) > of_int tot * 50 / 100
      then [''Great work on staying productive! Keep up the momentum.'']
      else [])"

definition with_fallback :: "string list \<Rightarrow> string list" where
  \<comment> \<open>rule 5: the generic sentence, only if no rule fired; then the cap at four\<close>
  "with_fallback fired =
     take 4 (if fired = []
             then [''You'' @ [CHR 0x27] @ ''re doing great! Keep maintaining your healthy routine.'']
             else fired)"

definition five_rules :: "TopActivity list \<Rightarrow> int \<Rightarrow> string list" where
  "five_rules top_list tot =
     with_fallback (rule_limit_leisure top_list tot @ rule_sleep top_list @ rule_exercise top_list
                    @ rule_productive top_list tot)"


section \<open>Streak tracker\<close>

subsection \<open>The transition of the client\<close>

lemma format_date_yesterday: "format_date (now - 86400000) = format_date now - 1"
  unfolding format_date_def
  using div_add_self2 [of 86400000 "now - 86400000"] by simp

lemma updateStreak_today:
  "updateStreak now d prev =
     (if lastActiveDate prev = Some (format_date now) then prev
      else \<lparr>currentStreak =
               (if lastActiveDate prev = Some (format_date now - 1) \<or> lastActiveDate prev = None
                then currentStreak prev + 1 else 1),
             longestStreak =
               max (if lastActiveDate prev = Some (format_date now - 1) \<or> lastActiveDate prev = None
                    then currentStreak prev + 1 else 1) (longestStreak prev),
             lastActiveDate = Some (format_date now)\<rparr>)"
  by (simp add: updateStreak_def Let_def format_date_yesterday)

lemma updateStreak_inv:
  "currentStreak prev \<le> longestStreak prev \<Longrightarrow>
   currentStreak (updateStreak now d prev) \<le> longestStreak (updateStreak now d prev)"
  by (simp add: updateStreak_today)

subsection \<open>The transition of the server\<close>

lemma list_all_update:
  "list_all Q xs \<Longrightarrow> Q (k, v) \<Longrightarrow> list_all Q (AList.update k v xs)"
  by (induction xs) auto

lemma list_all_delete: "list_all Q xs \<Longrightarrow> list_all Q (AList.delete k xs)"
  by (induction xs) auto

lemma find_update_Some:
  "list_all (\<lambda>(k, row). streak_id row = k) xs \<Longrightarrow> find P (map snd xs) = Some s \<Longrightarrow> P s' \<Longrightarrow>
   find P (map snd (AList.update (streak_id s) s' xs)) = Some s'"
  by (induction xs) (auto split: if_splits)

lemma find_update_None:
  "find P (map snd xs) = None \<Longrightarrow> P s' \<Longrightarrow> find P (map snd (AList.update k s' xs)) = Some s'"
  by (induction xs) (auto split: if_splits)

lemma streaks_createActivityLog [simp]:
  "streaks (createActivityLog uuid now userId entry st) = streaks st"
  by (simp add: createActivityLog_def Let_def)

lemma getStreak_createActivityLog [simp]:
  "getStreak (createActivityLog uuid now userId entry st) u = getStreak st u"
  by (simp add: getStreak_def)

lemma post_logs_other_day:
  "new_date body \<noteq> format_date now \<Longrightarrow>
   streaks (post_logs now uuid1 uuid2 userId body st) = streaks st"
  by (simp add: post_logs_def Let_def)

lemma getStreak_userId: "getStreak st u = Some s \<Longrightarrow> streak_userId s = u"
  by (auto simp add: getStreak_def find_Some_iff)

lemma post_logs_today:
  assumes "new_date body = format_date now" and "wf_streaks st"
  shows "getStreak (post_logs now uuid1 uuid2 userId body st) userId =
     Some (case getStreak st userId of
        None \<Rightarrow> \<lparr>currentStreak = 1, longestStreak = 1, lastActiveDate = Some (format_date now),
                  streak_id = uuid2, streak_userId = userId\<rparr>
      | Some s \<Rightarrow>
          s\<lparr>currentStreak :=
               (if lastActiveDate s = Some (format_date now) then currentStreak s
                else if lastActiveDate s = Some (format_date now - 1) then currentStreak s + 1
                else 1),
            longestStreak :=
               max (if lastActiveDate s = Some (format_date now) then currentStreak s
                    else if lastActiveDate s = Some (format_date now - 1) then currentStreak s + 1
                    else 1)
                   (longestStreak s),
            lastActiveDate := Some (format_date now)\<rparr>)"
proof (cases "getStreak st userId")
  case None
  then show ?thesis
    using assms(1)
    by (simp add: post_logs_def createOrUpdateStreak_def Let_def)
       (simp add: getStreak_def find_update_None)
next
  case (Some s)
  have u: "streak_userId s = userId" using Some by (rule getStreak_userId)
  from Some assms show ?thesis
    by (simp add: post_logs_def createOrUpdateStreak_def Let_def format_date_yesterday)
       (simp add: getStreak_def wf_streaks_def find_update_Some u)
qed

lemma post_logs_agrees:
  assumes "new_date body = format_date now" and "wf_streaks st"
    and "getStreak st userId = None \<or>
         (\<exists>row. getStreak st userId = Some row \<and> lastActiveDate row \<noteq> None
              \<and> currentStreak row \<le> longestStreak row)"
  shows "get_streak (post_logs now uuid1 uuid2 userId body st) userId
           = updateStreak now (new_date body) (get_streak st userId)"
  using assms(3)
  by (auto simp add: get_streak_def post_logs_today [OF assms(1,2)] updateStreak_today
        defaultStreak_def Streak.truncate_def)

lemma wf_streaks_post_logs:
  "wf_streaks st \<Longrightarrow> wf_streaks (post_logs now uuid1 uuid2 userId body st)"
  by (auto simp add: wf_streaks_def post_logs_def createOrUpdateStreak_def Let_def
        intro!: list_all_update split: option.splits)

lemma streaks_inv_post_logs:
  "streaks_inv st \<Longrightarrow> streaks_inv (post_logs now uuid1 uuid2 userId body st)"
  by (auto simp add: streaks_inv_def post_logs_def createOrUpdateStreak_def Let_def
        intro!: list_all_update split: option.splits)

lemma streaks_dated_post_logs:
  "streaks_dated st \<Longrightarrow> streaks_dated (post_logs now uuid1 uuid2 userId body st)"
  by (auto simp add: streaks_dated_def post_logs_def createOrUpdateStreak_def Let_def
        intro!: list_all_update split: option.splits)

lemma streaks_delete_logs [simp]: "streaks (snd (delete_logs i st)) = streaks st"
  by (simp add: delete_logs_def deleteActivityLog_def)

lemma activityTypes_delete_logs [simp]:
  "activityTypes (snd (delete_logs i st)) = activityTypes st"
  by (simp add: delete_logs_def deleteActivityLog_def)

lemma activityLogs_delete_logs:
  "activityLogs (snd (delete_logs i st)) = filter (\<lambda>(k, l). k \<noteq> i) (activityLogs st)"
  by (auto simp add: delete_logs_def deleteActivityLog_def AList.delete_eq case_prod_unfold
        intro!: filter_cong)

lemma server_step_inv: "streaks_inv st \<Longrightarrow> streaks_inv (server_step st ev)"
  by (cases ev) (simp_all add: streaks_inv_post_logs, simp add: streaks_inv_def)

lemma server_run_inv_from: "streaks_inv st \<Longrightarrow> streaks_inv (foldl server_step st evs)"
  by (induction evs arbitrary: st) (simp_all add: server_step_inv)

lemma server_step_rows:
  "wf_streaks st \<and> streaks_dated st \<Longrightarrow>
   wf_streaks (server_step st ev) \<and> streaks_dated (server_step st ev)"
  by (cases ev)
     (simp_all add: wf_streaks_post_logs streaks_dated_post_logs, simp add: wf_streaks_def streaks_dated_def)

lemma server_run_rows_from:
  "wf_streaks st \<and> streaks_dated st \<Longrightarrow>
   wf_streaks (foldl server_step st evs) \<and> streaks_dated (foldl server_step st evs)"
proof (induction evs arbitrary: st)
  case Nil
  then show ?case by simp
next
  case (Cons ev evs)
  from Cons.prems have "wf_streaks (server_step st ev) \<and> streaks_dated (server_step st ev)"
    by (rule server_step_rows)
  then show ?case
    using Cons.IH [of "server_step st ev"] by simp
qed

lemma server_run_rows:
  shows "wf_streaks (server_run reqs)" and "streaks_dated (server_run reqs)"
    and "streaks_inv (server_run reqs)"
proof -
  have "wf_streaks newMemStorage \<and> streaks_dated newMemStorage"
    by (simp add: wf_streaks_def streaks_dated_def newMemStorage_def)
  then have "wf_streaks (server_run reqs) \<and> streaks_dated (server_run reqs)"
    unfolding server_run_def by (rule server_run_rows_from)
  then show "wf_streaks (server_run reqs)" and "streaks_dated (server_run reqs)"
    by simp_all
  have "streaks_inv newMemStorage"
    by (simp add: streaks_inv_def newMemStorage_def)
  then show "streaks_inv (server_run reqs)"
    unfolding server_run_def by (rule server_run_inv_from)
qed

lemma getStreak_row:
  assumes "getStreak st u = Some row" and "streaks_dated st" and "streaks_inv st"
  shows "lastActiveDate row \<noteq> None \<and> currentStreak row \<le> longestStreak row"
proof -
  from assms(1) have "row \<in> snd ` set (streaks st)"
    by (auto simp add: getStreak_def find_Some_iff)
  then obtain k where "(k, row) \<in> set (streaks st)" by auto
  with assms(2,3) show ?thesis
    by (auto simp add: streaks_dated_def streaks_inv_def list_all_iff)
qed

lemma post_logs_agrees_run:
  assumes "new_date body = format_date now"
  shows "get_streak (post_logs now uuid1 uuid2 userId body (server_run reqs)) userId
           = updateStreak now (new_date body) (get_streak (server_run reqs) userId)"
proof (rule post_logs_agrees [OF assms server_run_rows(1)])
  show "getStreak (server_run reqs) userId = None \<or>
         (\<exists>row. getStreak (server_run reqs) userId = Some row \<and> lastActiveDate row \<noteq> None
              \<and> currentStreak row \<le> longestStreak row)"
  proof (cases "getStreak (server_run reqs) userId")
    case None
    then show ?thesis by simp
  next
    case (Some row)
    from getStreak_row [OF Some server_run_rows(2,3)] Some show ?thesis by simp
  qed
qed

lemma get_streak_inv:
  assumes "streaks_inv st"
  shows "currentStreak (get_streak st u) \<le> longestStreak (get_streak st u)"
proof (cases "getStreak st u")
  case None
  then show ?thesis by (simp add: get_streak_def defaultStreak_def)
next
  case (Some row)
  then have "row \<in> snd ` set (streaks st)"
    by (auto simp add: getStreak_def find_Some_iff)
  with assms have "currentStreak row \<le> longestStreak row"
    by (auto simp add: streaks_inv_def list_all_iff)
  with Some show ?thesis by (simp add: get_streak_def Streak.truncate_def)
qed

subsection \<open>Runs of the client\<close>

lemma client_step_inv:
  "currentStreak (streak s) \<le> longestStreak (streak s) \<Longrightarrow>
   currentStreak (streak (client_step s ev)) \<le> longestStreak (streak (client_step s ev))"
  by (cases ev) (simp_all add: addActivity_def addLog_def deleteLog_def Let_def updateStreak_inv)

lemma client_run_inv_from:
  "currentStreak (streak s) \<le> longestStreak (streak s) \<Longrightarrow>
   currentStreak (streak (foldl client_step s evs)) \<le> longestStreak (streak (foldl client_step s evs))"
  by (induction evs arbitrary: s) (simp_all add: client_step_inv)

lemma deleteLogs_streak: "streak (deleteLogs ids s) = streak s"
  unfolding deleteLogs_def by (induction ids arbitrary: s) (simp_all add: deleteLog_def)

lemma deleteLogs_activities: "activities (deleteLogs ids s) = activities s"
  unfolding deleteLogs_def by (induction ids arbitrary: s) (simp_all add: deleteLog_def)

lemma deleteLogs_logs: "logs (deleteLogs ids s) = filter (\<lambda>l. log_id l \<notin> set ids) (logs s)"
  unfolding deleteLogs_def
proof (induction ids arbitrary: s)
  case Nil
  show ?case by simp
next
  case (Cons i ids)
  have "logs (foldl (\<lambda>s' i. deleteLog i s') (deleteLog i s) ids)
          = filter (\<lambda>l. log_id l \<notin> set ids) (logs (deleteLog i s))"
    by (rule Cons.IH)
  also have "\<dots> = filter (\<lambda>l. log_id l \<notin> set (i # ids)) (logs s)"
    by (auto simp add: deleteLog_def intro!: filter_cong)
  finally show ?case by simp
qed

lemma delete_logs_all_streaks: "streaks (delete_logs_all ids st) = streaks st"
  unfolding delete_logs_all_def by (induction ids arbitrary: st) simp_all

lemma delete_logs_all_activityTypes: "activityTypes (delete_logs_all ids st) = activityTypes st"
  unfolding delete_logs_all_def by (induction ids arbitrary: st) simp_all

lemma get_streak_cong: "streaks st' = streaks st \<Longrightarrow> get_streak st' u = get_streak st u"
  by (simp add: get_streak_def getStreak_def)

subsection \<open>The transition of the server, relative to the log's date\<close>

text \<open>
  The handler runs the transition only for a log dated the current day. For such a log, in
  every storage that a run reaches, it stores the record that the table of the streak tracker
  gives for the user's stored streak (the fresh state when there is none) and the log's date.
\<close>

lemma post_logs_transition_table:
  fixes reqs :: "server_event list" and userId uuid1 uuid2 :: string and body :: NewLog
    and now :: instant
  assumes "new_date body = format_date now"
  defines "prev \<equiv> get_streak (server_run reqs) userId"
    and "result \<equiv> get_streak (post_logs now uuid1 uuid2 userId body (server_run reqs)) userId"
  shows "lastActiveDate prev = Some (new_date body) \<longrightarrow> result = prev"
    and "lastActiveDate prev = Some (new_date body - 1) \<or> lastActiveDate prev = None \<longrightarrow>
           currentStreak result = currentStreak prev + 1"
    and "lastActiveDate prev \<noteq> Some (new_date body) \<and> lastActiveDate prev \<noteq> Some (new_date body - 1)
           \<and> lastActiveDate prev \<noteq> None \<longrightarrow> currentStreak result = 1"
    and "lastActiveDate prev \<noteq> Some (new_date body) \<longrightarrow>
           longestStreak result = max (longestStreak prev) (currentStreak result)"
    and "lastActiveDate result = Some (new_date body)"
proof -
  have "result = updateStreak now (new_date body) prev"
    unfolding prev_def result_def using assms(1) by (rule post_logs_agrees_run)
  then show "lastActiveDate prev = Some (new_date body) \<longrightarrow> result = prev"
    and "lastActiveDate prev = Some (new_date body - 1) \<or> lastActiveDate prev = None \<longrightarrow>
           currentStreak result = currentStreak prev + 1"
    and "lastActiveDate prev \<noteq> Some (new_date body) \<and> lastActiveDate prev \<noteq> Some (new_date body - 1)
           \<and> lastActiveDate prev \<noteq> None \<longrightarrow> currentStreak result = 1"
    and "lastActiveDate prev \<noteq> Some (new_date body) \<longrightarrow>
           longestStreak result = max (longestStreak prev) (currentStreak result)"
    and "lastActiveDate result = Some (new_date body)"
    using assms(1) by (auto simp add: updateStreak_today)
qed

subsection \<open>The transition of the client in a zone that changes its offset\<close>

lemma updateStreak_in_zone_fixed:
  "updateStreak_in_zone (\<lambda>t. c) now date prev = updateStreak (now + c) date prev"
  by (simp add: updateStreak_in_zone_def updateStreak_def format_in_zone_def format_date_def
        algebra_simps)

text \<open>
  New York, 3 November 2024, 23:30 (the day has 25 hours): the instant 24 hours earlier is
  00:30 of the same day, so \<open>yesterday\<close> is 3 November as well. A user active on 2 November
  with a streak of 5 who adds the first log of 3 November, dated 3 November, is reset to 1.
\<close>

lemma updateStreak_resets_on_long_day:
  "civil_from_days 20030 = (2024, 11, 3)
   \<and> format_in_zone us_eastern_2024 1730694600000 = 20030
   \<and> format_in_zone us_eastern_2024 (1730694600000 - 86400000) = 20030
   \<and> updateStreak_in_zone us_eastern_2024 1730694600000 20030
        \<lparr>currentStreak = 5, longestStreak = 5, lastActiveDate = Some 20029\<rparr>
      = \<lparr>currentStreak = 1, longestStreak = 5, lastActiveDate = Some 20030\<rparr>"
  by code_simp

subsection \<open>Claims about the streak\<close>

text \<open>
  Claim C1: the table of the transition, relative to the log's date. The tracker of the
  client is handed the log's date and compares \<open>lastActiveDate\<close> with the clock's today and
  yesterday instead, so the table fails for a log that is not dated the clock's day. After
  logs on days 8 and 9 the streak is \<open>{2, 2, day 9}\<close>; a log dated day 10, added when the
  clock is one minute into day 11, makes it \<open>{1, 2, day 11}\<close>, where the table gives
  \<open>{3, 3, day 10}\<close>. After logs on days 9 and 10 the streak is \<open>{2, 2, day 10}\<close>; a second
  log dated day 10, added at that clock reading, makes it \<open>{3, 3, day 11}\<close>, where the table
  leaves it unchanged.
\<close>

theorem streak_transition_ignores_log_date:
  "streak (client_run
      [AddLog None 694800000
         \<lparr>new_activityTypeId = ''1'', new_date = 8, new_minutes = 30, new_notes = None\<rparr>,
       AddLog None 781200000
         \<lparr>new_activityTypeId = ''1'', new_date = 9, new_minutes = 45, new_notes = None\<rparr>])
     = \<lparr>currentStreak = 2, longestStreak = 2, lastActiveDate = Some 9\<rparr>
   \<and> streak (client_run
      [AddLog None 694800000
         \<lparr>new_activityTypeId = ''1'', new_date = 8, new_minutes = 30, new_notes = None\<rparr>,
       AddLog None 781200000
         \<lparr>new_activityTypeId = ''1'', new_date = 9, new_minutes = 45, new_notes = None\<rparr>,
       AddLog None 950460000
         \<lparr>new_activityTypeId = ''1'', new_date = 10, new_minutes = 20, new_notes = None\<rparr>])
     = \<lparr>currentStreak = 1, longestStreak = 2, lastActiveDate = Some 11\<rparr>
   \<and> streak (client_run
      [AddLog None 781200000
         \<lparr>new_activityTypeId = ''1'', new_date = 9, new_minutes = 45, new_notes = None\<rparr>,
       AddLog None 867600000
         \<lparr>new_activityTypeId = ''1'', new_date = 10, new_minutes = 30, new_notes = None\<rparr>])
     = \<lparr>currentStreak = 2, longestStreak = 2, lastActiveDate = Some 10\<rparr>
   \<and> streak (client_run
      [AddLog None 781200000
         \<lparr>new_activityTypeId = ''1'', new_date = 9, new_minutes = 45, new_notes = None\<rparr>,
       AddLog None 867600000
         \<lparr>new_activityTypeId = ''1'', new_date = 10, new_minutes = 30, new_notes = None\<rparr>,
       AddLog None 950460000
         \<lparr>new_activityTypeId = ''1'', new_date = 10, new_minutes = 20, new_notes = None\<rparr>])
     = \<lparr>currentStreak = 3, longestStreak = 3, lastActiveDate = Some 11\<rparr>"
  by (simp add: client_run_def initialState_def addLog_def Let_def updateStreak_def
        format_date_def defaultStreak_def)

text \<open>
  Claim C6: the transition should depend on the prior state and the log's date only. The
  client's \<open>updateStreak\<close> is handed the log's date and reads the clock instead: with the
  same prior state \<open>{2, 2, day 9}\<close> and the same log date (day 10), it yields \<open>{3, 3, day 10}\<close>
  when the clock shows day 10 and \<open>{1, 2, day 11}\<close> when the clock shows day 11.
\<close>

theorem updateStreak_depends_on_clock:
  "updateStreak 867600000 10 \<lparr>currentStreak = 2, longestStreak = 2, lastActiveDate = Some 9\<rparr>
     = \<lparr>currentStreak = 3, longestStreak = 3, lastActiveDate = Some 10\<rparr>
   \<and> updateStreak 950460000 10 \<lparr>currentStreak = 2, longestStreak = 2, lastActiveDate = Some 9\<rparr>
     = \<lparr>currentStreak = 1, longestStreak = 2, lastActiveDate = Some 11\<rparr>"
  by (simp add: updateStreak_def format_date_def)

text \<open>
  Claim C9: \<open>longestStreak \<ge> currentStreak\<close> holds in the default streak state and after
  every run from the initial state, on the client (whatever callbacks are called, at whatever
  clock readings) and on the server (whatever requests are made, for every user).
\<close>

theorem longestStreak_ge_currentStreak:
  "currentStreak defaultStreak \<le> longestStreak defaultStreak
   \<and> currentStreak (streak (client_run evs)) \<le> longestStreak (streak (client_run evs))
   \<and> currentStreak (get_streak (server_run reqs) userId)
        \<le> longestStreak (get_streak (server_run reqs) userId)"
proof -
  have "currentStreak (streak initialState) \<le> longestStreak (streak initialState)"
    by (simp add: initialState_def defaultStreak_def)
  then have client: "currentStreak (streak (client_run evs)) \<le> longestStreak (streak (client_run evs))"
    unfolding client_run_def by (rule client_run_inv_from)
  have "streaks_inv newMemStorage"
    by (simp add: streaks_inv_def newMemStorage_def)
  then have "streaks_inv (server_run reqs)"
    unfolding server_run_def by (rule server_run_inv_from)
  then have server: "currentStreak (get_streak (server_run reqs) userId)
        \<le> longestStreak (get_streak (server_run reqs) userId)"
    by (rule get_streak_inv)
  from client server show ?thesis by (simp add: defaultStreak_def)
qed

theorem longestStreak_ge_currentStreak_witness:
  "streak (client_run
      [AddLog None 867600000
         \<lparr>new_activityTypeId = ''1'', new_date = 10, new_minutes = 30, new_notes = None\<rparr>,
       AddLog None 950460000
         \<lparr>new_activityTypeId = ''1'', new_date = 11, new_minutes = 45, new_notes = None\<rparr>,
       AddLog None 1209600000
         \<lparr>new_activityTypeId = ''1'', new_date = 14, new_minutes = 5, new_notes = None\<rparr>])
     = \<lparr>currentStreak = 1, longestStreak = 2, lastActiveDate = Some 14\<rparr>
   \<and> currentStreak (streak (client_run
      [AddLog None 867600000
         \<lparr>new_activityTypeId = ''1'', new_date = 10, new_minutes = 30, new_notes = None\<rparr>,
       AddLog None 950460000
         \<lparr>new_activityTypeId = ''1'', new_date = 11, new_minutes = 45, new_notes = None\<rparr>,
       AddLog None 1209600000
         \<lparr>new_activityTypeId = ''1'', new_date = 14, new_minutes = 5, new_notes = None\<rparr>]))
     \<le> longestStreak (streak (client_run
      [AddLog None 867600000
         \<lparr>new_activityTypeId = ''1'', new_date = 10, new_minutes = 30, new_notes = None\<rparr>,
       AddLog None 950460000
         \<lparr>new_activityTypeId = ''1'', new_date = 11, new_minutes = 45, new_notes = None\<rparr>,
       AddLog None 1209600000
         \<lparr>new_activityTypeId = ''1'', new_date = 14, new_minutes = 5, new_notes = None\<rparr>]))"
  using longestStreak_ge_currentStreak
    [of "[AddLog None 867600000
         \<lparr>new_activityTypeId = ''1'', new_date = 10, new_minutes = 30, new_notes = None\<rparr>,
       AddLog None 950460000
         \<lparr>new_activityTypeId = ''1'', new_date = 11, new_minutes = 45, new_notes = None\<rparr>,
       AddLog None 1209600000
         \<lparr>new_activityTypeId = ''1'', new_date = 14, new_minutes = 5, new_notes = None\<rparr>]"]
  by (simp add: client_run_def initialState_def addLog_def Let_def updateStreak_def
        format_date_def defaultStreak_def)

text \<open>
  Claim C10: deleting a log removes the logs with the given id and nothing else; the streak
  and the activity types stay as they were. In particular, deleting every log of a day
  (the current one, say) leaves that day without logs and the streak untouched. The same
  holds for the server's delete route.
\<close>

theorem deleteLog_frame:
  "streak (deleteLog logId s) = streak s
   \<and> activities (deleteLog logId s) = activities s
   \<and> logs (deleteLog logId s) = filter (\<lambda>l. log_id l \<noteq> logId) (logs s)
   \<and> streak (deleteLogs (map log_id (filter (\<lambda>l. log_date l = today) (logs s))) s) = streak s
   \<and> filter (\<lambda>l. log_date l = today)
        (logs (deleteLogs (map log_id (filter (\<lambda>l. log_date l = today) (logs s))) s)) = []
   \<and> streaks (snd (delete_logs i st)) = streaks st
   \<and> activityTypes (snd (delete_logs i st)) = activityTypes st
   \<and> activityLogs (snd (delete_logs i st)) = filter (\<lambda>(k, l). k \<noteq> i) (activityLogs st)
   \<and> get_streak (delete_logs_all ids st) userId = get_streak st userId"
proof -
  have "filter (\<lambda>l. log_date l = today)
        (logs (deleteLogs (map log_id (filter (\<lambda>l. log_date l = today) (logs s))) s)) = []"
    by (auto simp add: deleteLogs_logs filter_empty_conv)
  moreover have "get_streak (delete_logs_all ids st) userId = get_streak st userId"
    by (rule get_streak_cong) (rule delete_logs_all_streaks)
  ultimately show ?thesis
    by (simp add: deleteLogs_streak activityLogs_delete_logs) (simp add: deleteLog_def)
qed

theorem deleteLog_frame_witness:
  "streak (deleteLog ''log-2''
      \<lparr>activities = defaultActivities,
       logs = [\<lparr>log_id = ''log-1'', log_userId = None, log_activityTypeId = ''1'',
                log_date = 10, log_minutes = 30, log_notes = None, log_createdAt = 1\<rparr>,
               \<lparr>log_id = ''log-2'', log_userId = None, log_activityTypeId = ''2'',
                log_date = 11, log_minutes = 20, log_notes = None, log_createdAt = 2\<rparr>],
       streak = \<lparr>currentStreak = 2, longestStreak = 2, lastActiveDate = Some 11\<rparr>\<rparr>)
     = \<lparr>currentStreak = 2, longestStreak = 2, lastActiveDate = Some 11\<rparr>
   \<and> map log_id (logs (deleteLog ''log-2''
      \<lparr>activities = defaultActivities,
       logs = [\<lparr>log_id = ''log-1'', log_userId = None, log_activityTypeId = ''1'',
                log_date = 10, log_minutes = 30, log_notes = None, log_createdAt = 1\<rparr>,
               \<lparr>log_id = ''log-2'', log_userId = None, log_activityTypeId = ''2'',
                log_date = 11, log_minutes = 20, log_notes = None, log_createdAt = 2\<rparr>],
       streak = \<lparr>currentStreak = 2, longestStreak = 2, lastActiveDate = Some 11\<rparr>\<rparr>))
     = [''log-1'']"
  using deleteLog_frame [of "''log-2''"
      "\<lparr>activities = defaultActivities,
       logs = [\<lparr>log_id = ''log-1'', log_userId = None, log_activityTypeId = ''1'',
                log_date = 10, log_minutes = 30, log_notes = None, log_createdAt = 1\<rparr>,
               \<lparr>log_id = ''log-2'', log_userId = None, log_activityTypeId = ''2'',
                log_date = 11, log_minutes = 20, log_notes = None, log_createdAt = 2\<rparr>],
       streak = \<lparr>currentStreak = 2, longestStreak = 2, lastActiveDate = Some 11\<rparr>\<rparr>"]
  by simp

section \<open>Daily statistics\<close>

subsection \<open>Array methods whose callback cannot throw\<close>

lemma bind_e_Inr [simp]: "bind_e (Inr x) f = f x"
  by (simp add: bind_e_def)

lemma bind_e_Inl [simp]: "bind_e (Inl e) f = Inl e"
  by (simp add: bind_e_def)

lemma category_of_Some [simp]: "category_of (Some t) = Inr (at_category t)"
  by (simp add: category_of_def)

lemma name_of_Some [simp]: "name_of (Some t) = Inr (at_name t)"
  by (simp add: name_of_def)

lemma filter_e_total:
  "list_all (\<lambda>x. p x = Inr (q x)) xs \<Longrightarrow> filter_e p xs = Inr (filter q xs)"
  by (induction xs) simp_all

lemma find_e_total:
  "list_all (\<lambda>x. p x = Inr (q x)) xs \<Longrightarrow> find_e p xs = Inr (find q xs)"
  by (induction xs) simp_all

lemma map_e_total:
  "list_all (\<lambda>x. f x = Inr (g x)) xs \<Longrightarrow> map_e f xs = Inr (map g xs)"
  by (induction xs) simp_all

lemma foldl_plus: "foldl (\<lambda>sum x. sum + f x) a xs = (a::int) + sum_list (map f xs)"
  by (induction xs arbitrary: a) simp_all

lemma list_all_with_time: "list_all (\<lambda>a. awt_activityType a \<noteq> None) (with_time lookup tot obj)"
  by (simp add: with_time_def list_all_iff)

lemma filter_e_category:
  assumes "list_all (\<lambda>a. typ a \<noteq> None) xs"
  shows "filter_e (\<lambda>a. bind_e (category_of (typ a)) (\<lambda>c. Inr (c = cat))) xs
           = Inr (filter (\<lambda>a. map_option at_category (typ a) = Some cat) xs)"
proof (rule filter_e_total)
  show "list_all (\<lambda>x. bind_e (category_of (typ x)) (\<lambda>c. Inr (c = cat))
                       = Inr (map_option at_category (typ x) = Some cat)) xs"
    using assms by (induction xs) auto
qed

lemma getDailyStats_Inr:
  "getDailyStats acts lgs d
     = Inr (daily_of (getActivityById acts) (filter (\<lambda>l. log_date l = d) lgs) d)"
proof -
  let ?xs = "filter (\<lambda>l. log_date l = d) lgs"
  let ?A = "with_time (getActivityById acts) (sum_list (map log_minutes ?xs)) (day_breakdown ?xs)"
  have all: "list_all (\<lambda>a. awt_activityType a \<noteq> None) ?A"
    by (rule list_all_with_time)
  have "getDailyStats acts lgs d =
     bind_e (filter_e (\<lambda>a. bind_e (category_of (awt_activityType a))
                                  (\<lambda>c. Inr (c = ''productive''))) ?A)
           (\<lambda>productive.
              bind_e (filter_e (\<lambda>a. bind_e (category_of (awt_activityType a))
                                       (\<lambda>c. Inr (c = ''leisure''))) ?A)
                (\<lambda>leisure.
                   Inr \<lparr>ds_date = d,
                        ds_totalMinutes = sum_list (map log_minutes ?xs),
                        ds_activities = ?A,
                        ds_productiveMinutes = foldl (\<lambda>sum a. sum + awt_minutes a) 0 productive,
                        ds_leisureMinutes = foldl (\<lambda>sum a. sum + awt_minutes a) 0 leisure\<rparr>))"
    by (simp add: getDailyStats_def Let_def foldl_plus with_time_def day_breakdown_def)
  also have "\<dots> = Inr (daily_of (getActivityById acts) ?xs d)"
    by (simp add: filter_e_category [OF all] foldl_plus daily_of_def)
  finally show ?thesis .
qed

lemma get_activity_daily_eq:
  "get_activity_daily st userId d
     = daily_of (server_lookup st userId) (getActivityLogsByDate st userId d) d"
  by (simp add: get_activity_daily_def Let_def foldl_plus with_time_def day_breakdown_def
        daily_of_def server_lookup_def)

subsection \<open>Percentages\<close>

lemma with_time_percentage:
  assumes "a \<in> set (with_time lookup tot obj)"
  shows "awt_percentage a =
           (if tot > 0 then Finite (of_int (awt_minutes a) / of_int tot * 100) else Finite 0)"
  using assms by (auto simp add: with_time_def js_div_def)

lemma daily_of_percentage:
  assumes "a \<in> set (ds_activities (daily_of lookup xs d))"
  shows "awt_percentage a =
           (if ds_totalMinutes (daily_of lookup xs d) > 0
            then Finite (of_int (awt_minutes a) / of_int (ds_totalMinutes (daily_of lookup xs d)) * 100)
            else Finite 0)"
  using assms with_time_percentage [of a lookup "sum_list (map log_minutes xs)" "day_breakdown xs"]
  by (simp add: daily_of_def)

subsection \<open>Logs whose activity type is missing\<close>

lemma map_of_filter_key:
  "P k \<Longrightarrow> map_of (filter (\<lambda>(k', v). P k') obj) k = map_of obj k"
  by (induction obj) auto

lemma filter_update_in:
  "P k \<Longrightarrow> filter (\<lambda>(k', v). P k') (AList.update k v obj)
             = AList.update k v (filter (\<lambda>(k', v). P k') obj)"
  by (induction obj) auto

lemma filter_update_out:
  "\<not> P k \<Longrightarrow> filter (\<lambda>(k', v). P k') (AList.update k v obj) = filter (\<lambda>(k', v). P k') obj"
  by (induction obj) auto

lemma add_minutes_filter_in:
  "P k \<Longrightarrow> filter (\<lambda>(k', v). P k') (add_minutes obj k m)
             = add_minutes (filter (\<lambda>(k', v). P k') obj) k m"
  by (simp add: add_minutes_def filter_update_in map_of_filter_key)

lemma add_minutes_filter_out:
  "\<not> P k \<Longrightarrow> filter (\<lambda>(k', v). P k') (add_minutes obj k m) = filter (\<lambda>(k', v). P k') obj"
  by (simp add: add_minutes_def filter_update_out)

lemma foldl_add_minutes_filter:
  "foldl (\<lambda>obj log. add_minutes obj (log_activityTypeId log) (log_minutes log))
      (filter (\<lambda>(k, v). P k) obj) (filter (\<lambda>l. P (log_activityTypeId l)) xs)
   = filter (\<lambda>(k, v). P k)
       (foldl (\<lambda>obj log. add_minutes obj (log_activityTypeId log) (log_minutes log)) obj xs)"
proof (induction xs arbitrary: obj)
  case Nil
  show ?case by simp
next
  case (Cons x xs)
  show ?case
  proof (cases "P (log_activityTypeId x)")
    case True
    then show ?thesis
      using Cons.IH [of "add_minutes obj (log_activityTypeId x) (log_minutes x)"]
      by (simp add: add_minutes_filter_in)
  next
    case False
    then show ?thesis
      using Cons.IH [of "add_minutes obj (log_activityTypeId x) (log_minutes x)"]
      by (simp add: add_minutes_filter_out)
  qed
qed

lemma day_breakdown_filter:
  "day_breakdown (filter (\<lambda>l. P (log_activityTypeId l)) xs)
     = filter (\<lambda>(k, v). P k) (day_breakdown xs)"
  using foldl_add_minutes_filter [of P "[]" xs] by (simp add: day_breakdown_def)

lemma object_entries_filter:
  "object_entries (filter (\<lambda>(k, v). P k) obj) = filter (\<lambda>(k, v). P k) (object_entries obj)"
proof -
  have 1: "filter (\<lambda>(k, v). is_array_index k) (filter (\<lambda>(k, v). P k) obj)
             = filter (\<lambda>(k, v). P k) (filter (\<lambda>(k, v). is_array_index k) obj)"
    by (auto intro!: filter_cong)
  have 2: "filter (\<lambda>(k, v). \<not> is_array_index k) (filter (\<lambda>(k, v). P k) obj)
             = filter (\<lambda>(k, v). P k) (filter (\<lambda>(k, v). \<not> is_array_index k) obj)"
    by (auto intro!: filter_cong)
  show ?thesis
    unfolding object_entries_def 1 2 by (simp add: filter_sort)
qed

lemma with_time_projection:
  "map (\<lambda>a. (awt_activityType a, awt_minutes a))
      (filter (\<lambda>a. awt_activityType a \<noteq> None)
         (map (\<lambda>(activityTypeId, minutes).
                 \<lparr>awt_activityType = lookup activityTypeId,
                  awt_minutes = minutes,
                  awt_percentage = pct minutes\<rparr>) es))
   = map (\<lambda>(k, m). (lookup k, m)) (filter (\<lambda>(k, v). lookup k \<noteq> None) es)"
  by (induction es) auto

lemma with_time_joinable:
  "map (\<lambda>a. (awt_activityType a, awt_minutes a))
      (with_time lookup tot' (filter (\<lambda>(k, v). lookup k \<noteq> None) obj))
   = map (\<lambda>a. (awt_activityType a, awt_minutes a)) (with_time lookup tot obj)"
  unfolding with_time_def with_time_projection object_entries_filter
  by simp

lemma sum_category_projection:
  "sum_list (map awt_minutes (filter (\<lambda>a. Q (awt_activityType a)) xs))
     = sum_list (map snd (filter (\<lambda>p. Q (fst p)) (map (\<lambda>a. (awt_activityType a, awt_minutes a)) xs)))"
  by (induction xs) simp_all

lemma with_time_lookup:
  assumes "a \<in> set (with_time lookup tot obj)"
  shows "\<exists>k t. lookup k = Some t \<and> awt_activityType a = Some t"
  using assms by (auto simp add: with_time_def)

lemma daily_of_joinable:
  fixes lookup xs d
  defines "s \<equiv> daily_of lookup xs d"
    and "s' \<equiv> daily_of lookup (filter (\<lambda>l. lookup (log_activityTypeId l) \<noteq> None) xs) d"
  shows "map (\<lambda>a. (awt_activityType a, awt_minutes a)) (ds_activities s)
           = map (\<lambda>a. (awt_activityType a, awt_minutes a)) (ds_activities s')"
    and "ds_productiveMinutes s = ds_productiveMinutes s'"
    and "ds_leisureMinutes s = ds_leisureMinutes s'"
    and "ds_totalMinutes s = sum_list (map log_minutes xs)"
proof -
  show 1: "map (\<lambda>a. (awt_activityType a, awt_minutes a)) (ds_activities s)
           = map (\<lambda>a. (awt_activityType a, awt_minutes a)) (ds_activities s')"
    unfolding s_def s'_def daily_of_def
    by (simp only: DailyStats.simps day_breakdown_filter [of "\<lambda>k. lookup k \<noteq> None"]
          with_time_joinable [of lookup _ "day_breakdown xs" "sum_list (map log_minutes xs)"])
  have sums: "sum_list (map awt_minutes (filter (\<lambda>a. Q (awt_activityType a)) (ds_activities s)))
      = sum_list (map awt_minutes (filter (\<lambda>a. Q (awt_activityType a)) (ds_activities s')))" for Q
    by (simp only: sum_category_projection 1)
  show "ds_productiveMinutes s = ds_productiveMinutes s'"
    using sums [of "\<lambda>t. map_option at_category t = Some ''productive''"]
    by (simp add: s_def s'_def daily_of_def)
  show "ds_leisureMinutes s = ds_leisureMinutes s'"
    using sums [of "\<lambda>t. map_option at_category t = Some ''leisure''"]
    by (simp add: s_def s'_def daily_of_def)
  show "ds_totalMinutes s = sum_list (map log_minutes xs)"
    by (simp add: s_def daily_of_def)
qed

lemma getActivityById_id: "getActivityById acts k = Some t \<Longrightarrow> at_id t = k"
  by (auto simp add: getActivityById_def find_Some_iff)

lemma server_lookup_id: "server_lookup st u k = Some t \<Longrightarrow> at_id t = k"
  by (auto simp add: server_lookup_def find_Some_iff)

lemma server_lookup_logs [simp]:
  "server_lookup (st\<lparr>activityLogs := ls\<rparr>) u = server_lookup st u"
  by (simp add: server_lookup_def getActivityTypes_def fun_eq_iff)

lemma getActivityLogsByDate_joinable:
  "getActivityLogsByDate
      (st\<lparr>activityLogs := filter (\<lambda>(k, l). lookup (log_activityTypeId l) \<noteq> None) (activityLogs st)\<rparr>)
      u d
   = filter (\<lambda>l. lookup (log_activityTypeId l) \<noteq> None) (getActivityLogsByDate st u d)"
proof -
  have "map snd (filter (\<lambda>(k, l). Q l) xs) = filter Q (map snd xs)" for Q and xs :: "(string \<times> ActivityLog) list"
    by (induction xs) auto
  then show ?thesis
    by (auto simp add: getActivityLogsByDate_def intro!: filter_cong)
qed

subsection \<open>Claims about the daily statistics\<close>

text \<open>
  Claim C8: every group of the daily breakdown has percentage \<open>minutes / totalMinutes \<times> 100\<close>
  when \<open>totalMinutes > 0\<close> and percentage 0 otherwise, on the client and on the server's
  daily route. The percentage is always a finite number (no quotient by zero is ever taken)
  and the client's function returns normally; in particular on a day with \<open>totalMinutes = 0\<close>
  every percentage is 0.
\<close>

theorem daily_percentage_guarded:
  "(\<exists>s. getDailyStats acts lgs d = Inr s
        \<and> (\<forall>a \<in> set (ds_activities s).
              awt_percentage a =
                (if ds_totalMinutes s > 0
                 then Finite (of_int (awt_minutes a) / of_int (ds_totalMinutes s) * 100)
                 else Finite 0))
        \<and> (ds_totalMinutes s = 0 \<longrightarrow>
              (\<forall>a \<in> set (ds_activities s). awt_percentage a = Finite 0)))
   \<and> (\<forall>a \<in> set (ds_activities (get_activity_daily st userId d)).
         awt_percentage a =
           (if ds_totalMinutes (get_activity_daily st userId d) > 0
            then Finite (of_int (awt_minutes a)
                   / of_int (ds_totalMinutes (get_activity_daily st userId d)) * 100)
            else Finite 0))
   \<and> (ds_totalMinutes (get_activity_daily st userId d) = 0 \<longrightarrow>
         (\<forall>a \<in> set (ds_activities (get_activity_daily st userId d)). awt_percentage a = Finite 0))"
proof -
  let ?s = "daily_of (getActivityById acts) (filter (\<lambda>l. log_date l = d) lgs) d"
  have "\<forall>a \<in> set (ds_activities ?s).
          awt_percentage a =
            (if ds_totalMinutes ?s > 0
             then Finite (of_int (awt_minutes a) / of_int (ds_totalMinutes ?s) * 100)
             else Finite 0)"
    using daily_of_percentage by blast
  then have client: "\<exists>s. getDailyStats acts lgs d = Inr s
        \<and> (\<forall>a \<in> set (ds_activities s).
              awt_percentage a =
                (if ds_totalMinutes s > 0
                 then Finite (of_int (awt_minutes a) / of_int (ds_totalMinutes s) * 100)
                 else Finite 0))
        \<and> (ds_totalMinutes s = 0 \<longrightarrow>
              (\<forall>a \<in> set (ds_activities s). awt_percentage a = Finite 0))"
    by (simp add: getDailyStats_Inr)
  have server: "\<forall>a \<in> set (ds_activities (get_activity_daily st userId d)).
         awt_percentage a =
           (if ds_totalMinutes (get_activity_daily st userId d) > 0
            then Finite (of_int (awt_minutes a)
                   / of_int (ds_totalMinutes (get_activity_daily st userId d)) * 100)
            else Finite 0)"
    unfolding get_activity_daily_eq using daily_of_percentage by blast
  from client server show ?thesis by simp
qed

theorem daily_percentage_witness:
  "(\<exists>s. getDailyStats defaultActivities
          [\<lparr>log_id = ''log-1'', log_userId = None, log_activityTypeId = ''1'', log_date = 5,
            log_minutes = 60, log_notes = None, log_createdAt = 1\<rparr>,
           \<lparr>log_id = ''log-2'', log_userId = None, log_activityTypeId = ''5'', log_date = 5,
            log_minutes = 30, log_notes = None, log_createdAt = 2\<rparr>] 5 = Inr s
        \<and> map awt_percentage (ds_activities s) = [Finite (200 / 3), Finite (100 / 3)])
   \<and> (\<exists>s. getDailyStats defaultActivities
          [\<lparr>log_id = ''log-1'', log_userId = None, log_activityTypeId = ''1'', log_date = 5,
            log_minutes = 0, log_notes = None, log_createdAt = 1\<rparr>] 5 = Inr s
        \<and> ds_totalMinutes s = 0
        \<and> map awt_percentage (ds_activities s) = [Finite 0])"
proof -
  let ?l1 = "[\<lparr>log_id = ''log-1'', log_userId = None, log_activityTypeId = ''1'', log_date = 5,
            log_minutes = 60, log_notes = None, log_createdAt = 1\<rparr>,
           \<lparr>log_id = ''log-2'', log_userId = None, log_activityTypeId = ''5'', log_date = 5,
            log_minutes = 30, log_notes = None, log_createdAt = 2\<rparr>]"
  let ?l2 = "[\<lparr>log_id = ''log-1'', log_userId = None, log_activityTypeId = ''1'', log_date = 5,
            log_minutes = 0, log_notes = None, log_createdAt = 1\<rparr>]"
  have m1: "\<And>s. getDailyStats defaultActivities ?l1 5 = Inr s \<Longrightarrow>
      map awt_minutes (ds_activities s) = [60, 30] \<and> ds_totalMinutes s = 90"
    by (simp add: getDailyStats_Inr daily_of_def with_time_def day_breakdown_def add_minutes_def
          object_entries_def is_array_index_def is_digit_def parse_nat_def getActivityById_def
          defaultActivities_def default_activity_def)
  have m2: "\<And>s. getDailyStats defaultActivities ?l2 5 = Inr s \<Longrightarrow>
      map awt_minutes (ds_activities s) = [0] \<and> ds_totalMinutes s = 0"
    by (simp add: getDailyStats_Inr daily_of_def with_time_def day_breakdown_def add_minutes_def
          object_entries_def is_array_index_def is_digit_def parse_nat_def getActivityById_def
          defaultActivities_def default_activity_def)
  from daily_percentage_guarded [of defaultActivities ?l1 5]
  obtain s1 where s1: "getDailyStats defaultActivities ?l1 5 = Inr s1"
    and p1: "\<forall>a \<in> set (ds_activities s1). awt_percentage a =
                (if ds_totalMinutes s1 > 0
                 then Finite (of_int (awt_minutes a) / of_int (ds_totalMinutes s1) * 100)
                 else Finite 0)"
    by blast
  from p1 have "map awt_percentage (ds_activities s1)
      = map (\<lambda>a. Finite (of_int (awt_minutes a) / 90 * 100)) (ds_activities s1)"
    using m1 [OF s1] by (simp add: map_eq_conv)
  also have "\<dots> = map (\<lambda>m. Finite (of_int m / 90 * 100)) (map awt_minutes (ds_activities s1))"
    by (simp add: comp_def)
  finally have r1: "map awt_percentage (ds_activities s1) = [Finite (200 / 3), Finite (100 / 3)]"
    using m1 [OF s1] by simp
  from daily_percentage_guarded [of defaultActivities ?l2 5]
  obtain s2 where s2: "getDailyStats defaultActivities ?l2 5 = Inr s2"
    and p2: "ds_totalMinutes s2 = 0 \<longrightarrow>
              (\<forall>a \<in> set (ds_activities s2). awt_percentage a = Finite 0)"
    by blast
  from p2 m2 [OF s2] have "map awt_percentage (ds_activities s2)
      = map (\<lambda>a. Finite 0) (ds_activities s2)"
    by (simp add: map_eq_conv)
  also have "\<dots> = map (\<lambda>m. Finite 0) (map awt_minutes (ds_activities s2))"
    by (simp add: comp_def)
  finally have r2: "map awt_percentage (ds_activities s2) = [Finite 0]"
    using m2 [OF s2] by simp
  have w1: "\<exists>s. getDailyStats defaultActivities ?l1 5 = Inr s
        \<and> map awt_percentage (ds_activities s) = [Finite (200 / 3), Finite (100 / 3)]"
    using s1 r1 by (intro exI [of _ s1]) simp
  have w2: "\<exists>s. getDailyStats defaultActivities ?l2 5 = Inr s
        \<and> ds_totalMinutes s = 0
        \<and> map awt_percentage (ds_activities s) = [Finite 0]"
    using s2 r2 m2 [OF s2] by (intro exI [of _ s2]) simp
  from w1 w2 show ?thesis by (rule conjI)
qed

text \<open>
  Claim C4: a log whose \<open>activityTypeId\<close> matches no visible activity type takes no part in
  the daily breakdown: the groups (with their types and minutes), \<open>productiveMinutes\<close> and
  \<open>leisureMinutes\<close> are those of the logs that do match, every group carries a type that
  is visible, and no group carries the id of such a log; \<open>totalMinutes\<close> is the sum over all
  logs of the day, such logs included. The client's function returns normally, and the
  server's route computes the same from the user's logs and visible types.
\<close>

theorem orphan_logs_counted_in_total_only:
  "(\<exists>s s'. getDailyStats acts lgs d = Inr s
        \<and> getDailyStats acts
             (filter (\<lambda>l. getActivityById acts (log_activityTypeId l) \<noteq> None) lgs) d = Inr s'
        \<and> map (\<lambda>a. (awt_activityType a, awt_minutes a)) (ds_activities s)
            = map (\<lambda>a. (awt_activityType a, awt_minutes a)) (ds_activities s')
        \<and> ds_productiveMinutes s = ds_productiveMinutes s'
        \<and> ds_leisureMinutes s = ds_leisureMinutes s'
        \<and> ds_totalMinutes s = sum_list (map log_minutes (filter (\<lambda>l. log_date l = d) lgs))
        \<and> (\<forall>a \<in> set (ds_activities s).
              \<exists>t. awt_activityType a = Some t \<and> getActivityById acts (at_id t) = Some t)
        \<and> (\<forall>l \<in> set lgs. getActivityById acts (log_activityTypeId l) = None \<longrightarrow>
              (\<forall>a \<in> set (ds_activities s).
                 map_option at_id (awt_activityType a) \<noteq> Some (log_activityTypeId l))))
   \<and> (let s = get_activity_daily st userId d;
           s' = get_activity_daily
                  (st\<lparr>activityLogs :=
                        filter (\<lambda>(k, l). server_lookup st userId (log_activityTypeId l) \<noteq> None)
                          (activityLogs st)\<rparr>) userId d
       in map (\<lambda>a. (awt_activityType a, awt_minutes a)) (ds_activities s)
            = map (\<lambda>a. (awt_activityType a, awt_minutes a)) (ds_activities s')
          \<and> ds_productiveMinutes s = ds_productiveMinutes s'
          \<and> ds_leisureMinutes s = ds_leisureMinutes s'
          \<and> ds_totalMinutes s = sum_list (map log_minutes (getActivityLogsByDate st userId d))
          \<and> (\<forall>a \<in> set (ds_activities s).
                \<exists>t. awt_activityType a = Some t \<and> server_lookup st userId (at_id t) = Some t))"
proof -
  let ?look = "getActivityById acts"
  let ?xs = "filter (\<lambda>l. log_date l = d) lgs"
  let ?s = "daily_of ?look ?xs d"
  let ?s' = "daily_of ?look (filter (\<lambda>l. ?look (log_activityTypeId l) \<noteq> None) ?xs) d"
  have swap: "filter (\<lambda>l. log_date l = d) (filter (\<lambda>l. ?look (log_activityTypeId l) \<noteq> None) lgs)
      = filter (\<lambda>l. ?look (log_activityTypeId l) \<noteq> None) ?xs"
    by (auto intro!: filter_cong)
  have r: "getDailyStats acts lgs d = Inr ?s"
    by (rule getDailyStats_Inr)
  have r': "getDailyStats acts (filter (\<lambda>l. ?look (log_activityTypeId l) \<noteq> None) lgs) d = Inr ?s'"
    unfolding getDailyStats_Inr swap ..
  have joined: "\<exists>t. awt_activityType a = Some t \<and> ?look (at_id t) = Some t"
    if "a \<in> set (ds_activities ?s)" for a
  proof -
    from that have "a \<in> set (with_time ?look (sum_list (map log_minutes ?xs)) (day_breakdown ?xs))"
      by (simp add: daily_of_def)
    from with_time_lookup [OF this]
    obtain k t where "?look k = Some t" and "awt_activityType a = Some t"
      by blast
    moreover from this have "at_id t = k" by (simp add: getActivityById_id)
    ultimately show ?thesis by auto
  qed
  have absent: "map_option at_id (awt_activityType a) \<noteq> Some (log_activityTypeId l)"
    if "?look (log_activityTypeId l) = None" and "a \<in> set (ds_activities ?s)" for a l
    using joined [OF that(2)] that(1) by auto
  have client: "\<exists>s s'. getDailyStats acts lgs d = Inr s
        \<and> getDailyStats acts
             (filter (\<lambda>l. getActivityById acts (log_activityTypeId l) \<noteq> None) lgs) d = Inr s'
        \<and> map (\<lambda>a. (awt_activityType a, awt_minutes a)) (ds_activities s)
            = map (\<lambda>a. (awt_activityType a, awt_minutes a)) (ds_activities s')
        \<and> ds_productiveMinutes s = ds_productiveMinutes s'
        \<and> ds_leisureMinutes s = ds_leisureMinutes s'
        \<and> ds_totalMinutes s = sum_list (map log_minutes (filter (\<lambda>l. log_date l = d) lgs))
        \<and> (\<forall>a \<in> set (ds_activities s).
              \<exists>t. awt_activityType a = Some t \<and> getActivityById acts (at_id t) = Some t)
        \<and> (\<forall>l \<in> set lgs. getActivityById acts (log_activityTypeId l) = None \<longrightarrow>
              (\<forall>a \<in> set (ds_activities s).
                 map_option at_id (awt_activityType a) \<noteq> Some (log_activityTypeId l)))"
    apply (rule exI [of _ ?s])
    apply (rule exI [of _ ?s'])
    apply (intro conjI)
           apply (rule r)
          apply (rule r')
         apply (rule daily_of_joinable(1))
        apply (rule daily_of_joinable(2))
       apply (rule daily_of_joinable(3))
      apply (rule daily_of_joinable(4))
    using joined apply blast
    using absent apply blast
    done
  let ?slook = "server_lookup st userId"
  let ?ys = "getActivityLogsByDate st userId d"
  let ?st' = "st\<lparr>activityLogs :=
                  filter (\<lambda>(k, l). ?slook (log_activityTypeId l) \<noteq> None) (activityLogs st)\<rparr>"
  have e: "get_activity_daily st userId d = daily_of ?slook ?ys d"
    by (rule get_activity_daily_eq)
  have e': "get_activity_daily ?st' userId d
      = daily_of ?slook (filter (\<lambda>l. ?slook (log_activityTypeId l) \<noteq> None) ?ys) d"
    by (simp only: get_activity_daily_eq server_lookup_logs getActivityLogsByDate_joinable)
  have sjoined: "\<exists>t. awt_activityType a = Some t \<and> ?slook (at_id t) = Some t"
    if "a \<in> set (ds_activities (daily_of ?slook ?ys d))" for a
  proof -
    from that have "a \<in> set (with_time ?slook (sum_list (map log_minutes ?ys)) (day_breakdown ?ys))"
      by (simp add: daily_of_def)
    from with_time_lookup [OF this]
    obtain k t where "?slook k = Some t" and "awt_activityType a = Some t"
      by blast
    moreover from this have "at_id t = k" by (simp add: server_lookup_id)
    ultimately show ?thesis by auto
  qed
  have server: "let s = get_activity_daily st userId d;
           s' = get_activity_daily ?st' userId d
       in map (\<lambda>a. (awt_activityType a, awt_minutes a)) (ds_activities s)
            = map (\<lambda>a. (awt_activityType a, awt_minutes a)) (ds_activities s')
          \<and> ds_productiveMinutes s = ds_productiveMinutes s'
          \<and> ds_leisureMinutes s = ds_leisureMinutes s'
          \<and> ds_totalMinutes s = sum_list (map log_minutes (getActivityLogsByDate st userId d))
          \<and> (\<forall>a \<in> set (ds_activities s).
                \<exists>t. awt_activityType a = Some t \<and> server_lookup st userId (at_id t) = Some t)"
    unfolding Let_def e e'
    apply (intro conjI)
        apply (rule daily_of_joinable(1))
       apply (rule daily_of_joinable(2))
      apply (rule daily_of_joinable(3))
     apply (rule daily_of_joinable(4))
    using sjoined apply blast
    done
  from client server show ?thesis by (rule conjI)
qed

theorem orphan_logs_witness:
  "\<exists>s s'. getDailyStats defaultActivities
          [\<lparr>log_id = ''log-1'', log_userId = None, log_activityTypeId = ''1'', log_date = 5,
            log_minutes = 60, log_notes = None, log_createdAt = 1\<rparr>,
           \<lparr>log_id = ''log-2'', log_userId = None, log_activityTypeId = ''gone'', log_date = 5,
            log_minutes = 10, log_notes = None, log_createdAt = 2\<rparr>,
           \<lparr>log_id = ''log-3'', log_userId = None, log_activityTypeId = ''5'', log_date = 5,
            log_minutes = 30, log_notes = None, log_createdAt = 3\<rparr>] 5 = Inr s
     \<and> getDailyStats defaultActivities
          [\<lparr>log_id = ''log-1'', log_userId = None, log_activityTypeId = ''1'', log_date = 5,
            log_minutes = 60, log_notes = None, log_createdAt = 1\<rparr>,
           \<lparr>log_id = ''log-3'', log_userId = None, log_activityTypeId = ''5'', log_date = 5,
            log_minutes = 30, log_notes = None, log_createdAt = 3\<rparr>] 5 = Inr s'
     \<and> ds_totalMinutes s = 100
     \<and> ds_totalMinutes s' = 90
     \<and> map awt_minutes (ds_activities s) = [60, 30]
     \<and> ds_productiveMinutes s = ds_productiveMinutes s'
     \<and> ds_leisureMinutes s = ds_leisureMinutes s'"
proof -
  let ?lgs = "[\<lparr>log_id = ''log-1'', log_userId = None, log_activityTypeId = ''1'', log_date = 5,
            log_minutes = 60, log_notes = None, log_createdAt = 1\<rparr>,
           \<lparr>log_id = ''log-2'', log_userId = None, log_activityTypeId = ''gone'', log_date = 5,
            log_minutes = 10, log_notes = None, log_createdAt = 2\<rparr>,
           \<lparr>log_id = ''log-3'', log_userId = None, log_activityTypeId = ''5'', log_date = 5,
            log_minutes = 30, log_notes = None, log_createdAt = 3\<rparr>]"
  let ?kept = "[\<lparr>log_id = ''log-1'', log_userId = None, log_activityTypeId = ''1'', log_date = 5,
            log_minutes = 60, log_notes = None, log_createdAt = 1\<rparr>,
           \<lparr>log_id = ''log-3'', log_userId = None, log_activityTypeId = ''5'', log_date = 5,
            log_minutes = 30, log_notes = None, log_createdAt = 3\<rparr>]"
  have kept: "filter (\<lambda>l. getActivityById defaultActivities (log_activityTypeId l) \<noteq> None) ?lgs
      = ?kept"
    by (simp add: getActivityById_def defaultActivities_def default_activity_def)
  have v: "\<And>s. getDailyStats defaultActivities ?kept 5 = Inr s \<Longrightarrow>
      map (\<lambda>a. (awt_activityType a, awt_minutes a)) (ds_activities s)
        = [(Some (default_activity ''1'' ''Work'' ''Briefcase'' ''#3B82F6'' ''productive''), 60),
           (Some (default_activity ''5'' ''Reading'' ''Book'' ''#F59E0B'' ''productive''), 30)]
      \<and> ds_totalMinutes s = 90"
    by (simp add: getDailyStats_Inr daily_of_def with_time_def day_breakdown_def add_minutes_def
          object_entries_def is_array_index_def is_digit_def parse_nat_def getActivityById_def
          defaultActivities_def default_activity_def)
  from orphan_logs_counted_in_total_only [of defaultActivities ?lgs 5]
  obtain s s' where s: "getDailyStats defaultActivities ?lgs 5 = Inr s"
    and s': "getDailyStats defaultActivities ?kept 5 = Inr s'"
    and a: "map (\<lambda>a. (awt_activityType a, awt_minutes a)) (ds_activities s)
            = map (\<lambda>a. (awt_activityType a, awt_minutes a)) (ds_activities s')"
    and p: "ds_productiveMinutes s = ds_productiveMinutes s'"
    and l: "ds_leisureMinutes s = ds_leisureMinutes s'"
    and t: "ds_totalMinutes s = sum_list (map log_minutes (filter (\<lambda>l. log_date l = 5) ?lgs))"
    unfolding kept by blast
  from t have t100: "ds_totalMinutes s = 100" by simp
  have "map awt_minutes (ds_activities s)
      = map snd (map (\<lambda>a. (awt_activityType a, awt_minutes a)) (ds_activities s))"
    by (simp add: comp_def)
  also have "\<dots> = [60, 30]"
    unfolding a using v [OF s'] by simp
  finally have m: "map awt_minutes (ds_activities s) = [60, 30]" .
  show ?thesis
    using s s' t100 v [OF s'] m p l
    by (intro exI [of _ s] exI [of _ s']) simp
qed

section \<open>Weekly statistics\<close>

subsection \<open>The week of a date\<close>

lemma getDay_range: "0 \<le> getDay d \<and> getDay d < 7"
  by (simp add: getDay_def)

lemma week_split:
  obtains q r where "d = 7 * q + r - 4" and "0 \<le> r" and "r < 7" and "getDay d = r"
proof
  show "d = 7 * ((d + 4) div 7) + (d + 4) mod 7 - 4" by simp
  show "0 \<le> (d + 4) mod 7" by simp
  show "(d + 4) mod 7 < 7" by simp
  show "getDay d = (d + 4) mod 7" by (simp add: getDay_def)
qed

lemma startOfWeek_eq: "startOfWeek d 1 = d - (if getDay d = 0 then 6 else getDay d - 1)"
  using getDay_range [of d] by (simp add: startOfWeek_def Let_def)

lemma endOfWeek_eq: "endOfWeek d 1 = d + (if getDay d = 0 then 0 else 7 - getDay d)"
  using getDay_range [of d] by (simp add: endOfWeek_def Let_def)

lemma startOfWeek_monday: "getDay (startOfWeek d 1) = 1"
proof -
  obtain q r where d: "d = 7 * q + r - 4" and r: "0 \<le> r" "r < 7" "getDay d = r"
    by (rule week_split)
  show ?thesis
  proof (cases "r = 0")
    case True
    then have "startOfWeek d 1 + 4 = 7 * (q - 1) + 1"
      using r by (simp add: startOfWeek_eq d)
    then have "getDay (startOfWeek d 1) = (7 * (q - 1) + 1) mod 7"
      by (simp only: getDay_def)
    also have "\<dots> = 1" by (simp only: mod_mult_self4) simp
    finally show ?thesis .
  next
    case False
    then have "startOfWeek d 1 + 4 = 7 * q + 1"
      using r by (simp add: startOfWeek_eq d)
    then have "getDay (startOfWeek d 1) = (7 * q + 1) mod 7"
      by (simp only: getDay_def)
    also have "\<dots> = 1" by (simp only: mod_mult_self4) simp
    finally show ?thesis .
  qed
qed

lemma startOfWeek_le: "startOfWeek d 1 \<le> d"
  using getDay_range [of d] by (simp add: startOfWeek_eq)

lemma endOfWeek_startOfWeek: "endOfWeek d 1 = startOfWeek d 1 + 6"
  using getDay_range [of d] by (simp add: startOfWeek_eq endOfWeek_eq)

lemma endOfWeek_ge: "d \<le> endOfWeek d 1"
  using getDay_range [of d] by (simp add: endOfWeek_eq)

lemma upto_seven: "[a..a + 6] = [a, a + 1, a + 2, a + 3, a + 4, a + 5, a + (6::int)]"
proof -
  have 1: "[a..a + 6] = a # [a + 1..a + 6]" by (rule upto_rec1) simp
  have 2: "[a + 1..a + 6] = (a + 1) # [a + 2..a + 6]" using upto_rec1 [of "a + 1" "a + 6"] by (simp add: ac_simps)
  have 3: "[a + 2..a + 6] = (a + 2) # [a + 3..a + 6]" using upto_rec1 [of "a + 2" "a + 6"] by (simp add: ac_simps)
  have 4: "[a + 3..a + 6] = (a + 3) # [a + 4..a + 6]" using upto_rec1 [of "a + 3" "a + 6"] by (simp add: ac_simps)
  have 5: "[a + 4..a + 6] = (a + 4) # [a + 5..a + 6]" using upto_rec1 [of "a + 4" "a + 6"] by (simp add: ac_simps)
  have 6: "[a + 5..a + 6] = (a + 5) # [a + 6..a + 6]" using upto_rec1 [of "a + 5" "a + 6"] by (simp add: ac_simps)
  show ?thesis unfolding 1 2 3 4 5 6 by simp
qed

subsection \<open>The function returns\<close>

lemma change_insights_total:
  "list_all (\<lambda>a. wa_activityType a \<noteq> None) xs \<Longrightarrow> \<exists>r. change_insights xs = Inr r"
  by (induction xs) auto

lemma generateWeeklyInsights_total:
  assumes "list_all (\<lambda>a. wa_activityType a \<noteq> None) xs"
  shows "\<exists>r. generateWeeklyInsights xs tot = Inr r"
proof -
  from change_insights_total [OF assms] obtain r where "change_insights xs = Inr r" ..
  then show ?thesis
    by (simp add: generateWeeklyInsights_def filter_e_category [OF assms] Let_def)
qed

lemma list_all_weekly_breakdown:
  "list_all (\<lambda>a. wa_activityType a \<noteq> None) (weekly_breakdown acts objs)"
  by (simp add: weekly_breakdown_def list_all_iff)

lemma map_e_getDailyStats:
  "map_e (\<lambda>day. getDailyStats acts lgs day) days
     = Inr (map (\<lambda>day. daily_of (getActivityById acts) (filter (\<lambda>l. log_date l = day) lgs) day) days)"
  by (rule map_e_total) (simp add: getDailyStats_Inr list_all_iff)

lemma getWeeklyStats_Inr:
  "\<exists>insights. getWeeklyStats acts lgs d =
     Inr \<lparr>ws_startDate = startOfWeek d 1,
          ws_endDate = endOfWeek d 1,
          ws_totalMinutes =
            sum_list (map ds_totalMinutes
              (map (\<lambda>day. daily_of (getActivityById acts) (filter (\<lambda>l. log_date l = day) lgs) day)
                 [startOfWeek d 1..endOfWeek d 1])),
          ws_dailyBreakdown =
            map (\<lambda>day. daily_of (getActivityById acts) (filter (\<lambda>l. log_date l = day) lgs) day)
              [startOfWeek d 1..endOfWeek d 1],
          ws_activityBreakdown =
            weekly_breakdown acts (week_objects lgs (startOfWeek d 1) (endOfWeek d 1)),
          ws_insights = insights\<rparr>"
proof -
  let ?bd = "weekly_breakdown acts (week_objects lgs (startOfWeek d 1) (endOfWeek d 1))"
  let ?days = "map (\<lambda>day. daily_of (getActivityById acts) (filter (\<lambda>l. log_date l = day) lgs) day)
                 [startOfWeek d 1..endOfWeek d 1]"
  from generateWeeklyInsights_total [OF list_all_weekly_breakdown]
  obtain r where r: "generateWeeklyInsights ?bd (sum_list (map ds_totalMinutes ?days)) = Inr r"
    by blast
  have "getWeeklyStats acts lgs d =
      bind_e (generateWeeklyInsights ?bd (sum_list (map ds_totalMinutes ?days)))
        (\<lambda>insights.
           Inr \<lparr>ws_startDate = startOfWeek d 1,
                ws_endDate = endOfWeek d 1,
                ws_totalMinutes = sum_list (map ds_totalMinutes ?days),
                ws_dailyBreakdown = ?days,
                ws_activityBreakdown = ?bd,
                ws_insights = insights\<rparr>)"
    unfolding getWeeklyStats_def Let_def map_e_getDailyStats eachDayOfInterval_def
    by (simp add: foldl_plus weekly_breakdown_def weekly_entry_def week_objects_def Let_def)
  then show ?thesis
    unfolding r bind_e_Inr by blast
qed

subsection \<open>Minutes per activity in the two weeks\<close>

lemma week_objects_split:
  assumes "we = ws + 6"
  shows "week_objects lgs ws we =
     (day_breakdown (filter (\<lambda>l. ws \<le> log_date l \<and> log_date l \<le> we) lgs),
      day_breakdown (filter (\<lambda>l. ws - 7 \<le> log_date l \<and> log_date l \<le> we - 7) lgs))"
proof -
  let ?add = "\<lambda>obj log. add_minutes obj (log_activityTypeId log) (log_minutes log)"
  let ?step = "\<lambda>(currentWeekByActivity, prevWeekByActivity) log.
              if ws \<le> log_date log \<and> log_date log \<le> we then
                (add_minutes currentWeekByActivity (log_activityTypeId log) (log_minutes log),
                 prevWeekByActivity)
              else if subWeeks ws 1 \<le> log_date log \<and> log_date log \<le> subWeeks we 1 then
                (currentWeekByActivity,
                 add_minutes prevWeekByActivity (log_activityTypeId log) (log_minutes log))
              else (currentWeekByActivity, prevWeekByActivity)"
  have "foldl ?step (c, p) xs =
     (foldl ?add c (filter (\<lambda>l. ws \<le> log_date l \<and> log_date l \<le> we) xs),
      foldl ?add p (filter (\<lambda>l. ws - 7 \<le> log_date l \<and> log_date l \<le> we - 7) xs))" for c p xs
    using assms by (induction xs arbitrary: c p) (auto simp add: subWeeks_def)
  then show ?thesis
    by (simp add: week_objects_def day_breakdown_def)
qed

lemma map_of_add_minutes:
  "map_of (add_minutes obj k m) k' =
     (if k' = k then Some ((case map_of obj k of Some v \<Rightarrow> v | None \<Rightarrow> 0) + m) else map_of obj k')"
  by (simp add: add_minutes_def update_conv')

lemma filter_key_empty:
  "k \<notin> log_activityTypeId ` set xs \<Longrightarrow> filter (\<lambda>l. log_activityTypeId l = k) xs = []"
  by (auto simp add: filter_empty_conv)

lemma map_of_foldl_add_minutes:
  "map_of (foldl (\<lambda>obj log. add_minutes obj (log_activityTypeId log) (log_minutes log)) obj xs) k =
     (if k \<in> log_activityTypeId ` set xs
      then Some ((case map_of obj k of Some v \<Rightarrow> v | None \<Rightarrow> 0)
                  + sum_list (map log_minutes (filter (\<lambda>l. log_activityTypeId l = k) xs)))
      else map_of obj k)"
proof (induction xs arbitrary: obj)
  case Nil
  show ?case by simp
next
  case (Cons x xs)
  show ?case
    by (auto simp add: Cons.IH map_of_add_minutes filter_key_empty)
qed

lemma map_of_day_breakdown:
  "map_of (day_breakdown xs) k =
     (if k \<in> log_activityTypeId ` set xs
      then Some (sum_list (map log_minutes (filter (\<lambda>l. log_activityTypeId l = k) xs)))
      else None)"
  by (simp add: day_breakdown_def map_of_foldl_add_minutes)

lemma distinct_foldl_add_minutes:
  "distinct (map fst obj) \<Longrightarrow>
   distinct (map fst (foldl (\<lambda>obj log. add_minutes obj (log_activityTypeId log) (log_minutes log))
                        obj xs))"
  by (induction xs arbitrary: obj) (simp_all add: add_minutes_def distinct_update)

lemma distinct_day_breakdown: "distinct (map fst (day_breakdown xs))"
  by (simp add: day_breakdown_def distinct_foldl_add_minutes)

lemma set_object_entries: "set (object_entries obj) = set obj"
  by (auto simp add: object_entries_def)

lemma day_breakdown_entry:
  assumes "(k, m) \<in> set (object_entries (day_breakdown xs))"
  shows "m = sum_list (map log_minutes (filter (\<lambda>l. log_activityTypeId l = k) xs))"
proof -
  from assms have "map_of (day_breakdown xs) k = Some m"
    by (simp add: set_object_entries distinct_day_breakdown)
  then show ?thesis
    by (simp add: map_of_day_breakdown split: if_splits)
qed

lemma day_breakdown_or_zero:
  "(case map_of (day_breakdown xs) k of Some v \<Rightarrow> v | None \<Rightarrow> 0)
     = sum_list (map log_minutes (filter (\<lambda>l. log_activityTypeId l = k) xs))"
proof (cases "k \<in> log_activityTypeId ` set xs")
  case True
  then show ?thesis by (simp add: map_of_day_breakdown)
next
  case False
  then have "filter (\<lambda>l. log_activityTypeId l = k) xs = []"
    by (auto simp add: filter_empty_conv)
  with False show ?thesis by (simp add: map_of_day_breakdown)
qed

lemma week_minutes_filter:
  "sum_list (map log_minutes
      (filter (\<lambda>l. log_activityTypeId l = k) (filter (\<lambda>l. a \<le> log_date l \<and> log_date l \<le> b) lgs)))
   = week_minutes lgs k a b"
  unfolding week_minutes_def filter_filter
  by (rule arg_cong [where f = "\<lambda>xs. sum_list (map log_minutes xs)"]) (auto intro!: filter_cong)

lemma weekly_breakdown_entry:
  assumes "a \<in> set (weekly_breakdown acts (week_objects lgs ws we))" and "we = ws + 6"
  shows "\<exists>t. wa_activityType a = Some t
           \<and> wa_minutes a = week_minutes lgs (at_id t) ws we
           \<and> wa_previousWeekMinutes a = week_minutes lgs (at_id t) (ws - 7) (we - 7)"
    and "wa_changePercentage a =
           (if wa_previousWeekMinutes a > 0
            then Finite (of_int (wa_minutes a - wa_previousWeekMinutes a)
                   / of_int (wa_previousWeekMinutes a) * 100)
            else if wa_minutes a > 0 then Finite 100 else Finite 0)"
proof -
  let ?cur = "day_breakdown (filter (\<lambda>l. ws \<le> log_date l \<and> log_date l \<le> we) lgs)"
  let ?prev = "day_breakdown (filter (\<lambda>l. ws - 7 \<le> log_date l \<and> log_date l \<le> we - 7) lgs)"
  from assms obtain k m where km: "(k, m) \<in> set (object_entries ?cur)"
    and a: "a = weekly_entry acts ?prev (k, m)" and t: "wa_activityType a \<noteq> None"
    by (auto simp add: weekly_breakdown_def week_objects_split)
  from t a obtain t' where t': "getActivityById acts k = Some t'"
    by (auto simp add: weekly_entry_def Let_def)
  have id: "at_id t' = k" using t' by (rule getActivityById_id)
  have m: "m = week_minutes lgs k ws we"
    unfolding week_minutes_filter [symmetric] by (rule day_breakdown_entry [OF km])
  have p: "wa_previousWeekMinutes a = week_minutes lgs k (ws - 7) (we - 7)"
    unfolding week_minutes_filter [symmetric]
    by (simp add: a weekly_entry_def Let_def day_breakdown_or_zero del: filter_filter)
  show "\<exists>t. wa_activityType a = Some t
           \<and> wa_minutes a = week_minutes lgs (at_id t) ws we
           \<and> wa_previousWeekMinutes a = week_minutes lgs (at_id t) (ws - 7) (we - 7)"
    using t' id m p by (simp add: a weekly_entry_def Let_def)
  show "wa_changePercentage a =
           (if wa_previousWeekMinutes a > 0
            then Finite (of_int (wa_minutes a - wa_previousWeekMinutes a)
                   / of_int (wa_previousWeekMinutes a) * 100)
            else if wa_minutes a > 0 then Finite 100 else Finite 0)"
    by (simp add: a weekly_entry_def Let_def js_div_def)
qed

lemma sorted_weekly_breakdown:
  "sorted_wrt (\<lambda>a b. wa_minutes a \<ge> wa_minutes b) (weekly_breakdown acts objs)"
proof -
  have "sorted (map (\<lambda>a. - wa_minutes a) (weekly_breakdown acts objs))"
    unfolding weekly_breakdown_def by (rule sorted_sort_key)
  then show ?thesis
    by (simp add: sorted_map sorted_wrt_iff_nth_less)
qed

subsection \<open>Claims about the weekly statistics\<close>

lemma getWeeklyStats_fields:
  obtains w where "getWeeklyStats acts lgs d = Inr w"
    and "ws_startDate w = startOfWeek d 1"
    and "ws_endDate w = endOfWeek d 1"
    and "ws_totalMinutes w = sum_list (map ds_totalMinutes (ws_dailyBreakdown w))"
    and "ws_dailyBreakdown w =
            map (\<lambda>day. daily_of (getActivityById acts) (filter (\<lambda>l. log_date l = day) lgs) day)
              [startOfWeek d 1..endOfWeek d 1]"
    and "ws_activityBreakdown w
              = weekly_breakdown acts (week_objects lgs (startOfWeek d 1) (endOfWeek d 1))"
proof -
  from getWeeklyStats_Inr [of acts lgs d] obtain insights where
    eq: "getWeeklyStats acts lgs d =
     Inr \<lparr>ws_startDate = startOfWeek d 1,
          ws_endDate = endOfWeek d 1,
          ws_totalMinutes =
            sum_list (map ds_totalMinutes
              (map (\<lambda>day. daily_of (getActivityById acts) (filter (\<lambda>l. log_date l = day) lgs) day)
                 [startOfWeek d 1..endOfWeek d 1])),
          ws_dailyBreakdown =
            map (\<lambda>day. daily_of (getActivityById acts) (filter (\<lambda>l. log_date l = day) lgs) day)
              [startOfWeek d 1..endOfWeek d 1],
          ws_activityBreakdown =
            weekly_breakdown acts (week_objects lgs (startOfWeek d 1) (endOfWeek d 1)),
          ws_insights = insights\<rparr>" ..
  show thesis
    by (rule that [OF eq]) (simp_all only: WeeklyStats.simps)
qed

text \<open>
  Claim C2: for every set of logs and every anchor date the weekly statistics are computed
  (the function returns normally) over the seven days from the Monday on or before the
  anchor date to the Sunday on or after it; \<open>dailyBreakdown\<close> is the daily statistics of
  each of these seven days in date order, and \<open>totalMinutes\<close> is the sum of the seven daily
  \<open>totalMinutes\<close>.
\<close>

theorem weekly_rollup_of_monday_week:
  "\<exists>w. getWeeklyStats acts lgs d = Inr w
     \<and> getDay (ws_startDate w) = 1
     \<and> ws_startDate w \<le> d \<and> d \<le> ws_endDate w
     \<and> ws_endDate w = ws_startDate w + 6
     \<and> map Inr (ws_dailyBreakdown w)
         = map (getDailyStats acts lgs)
             [ws_startDate w, ws_startDate w + 1, ws_startDate w + 2, ws_startDate w + 3,
              ws_startDate w + 4, ws_startDate w + 5, ws_startDate w + 6]
     \<and> map ds_date (ws_dailyBreakdown w)
         = [ws_startDate w, ws_startDate w + 1, ws_startDate w + 2, ws_startDate w + 3,
            ws_startDate w + 4, ws_startDate w + 5, ws_startDate w + 6]
     \<and> ws_totalMinutes w = sum_list (map ds_totalMinutes (ws_dailyBreakdown w))"
proof -
  obtain w where
    w: "getWeeklyStats acts lgs d = Inr w"
    and s: "ws_startDate w = startOfWeek d 1"
    and e: "ws_endDate w = endOfWeek d 1"
    and t: "ws_totalMinutes w = sum_list (map ds_totalMinutes (ws_dailyBreakdown w))"
    and b: "ws_dailyBreakdown w =
            map (\<lambda>day. daily_of (getActivityById acts) (filter (\<lambda>l. log_date l = day) lgs) day)
              [startOfWeek d 1..endOfWeek d 1]"
    by (rule getWeeklyStats_fields)
  have days: "[startOfWeek d 1..endOfWeek d 1]
      = [ws_startDate w, ws_startDate w + 1, ws_startDate w + 2, ws_startDate w + 3,
         ws_startDate w + 4, ws_startDate w + 5, ws_startDate w + 6]"
    by (simp only: s endOfWeek_startOfWeek upto_seven)
  have "map Inr (ws_dailyBreakdown w)
      = map (getDailyStats acts lgs) [startOfWeek d 1..endOfWeek d 1]"
    by (simp add: b getDailyStats_Inr)
  then have m: "map Inr (ws_dailyBreakdown w)
         = map (getDailyStats acts lgs)
             [ws_startDate w, ws_startDate w + 1, ws_startDate w + 2, ws_startDate w + 3,
              ws_startDate w + 4, ws_startDate w + 5, ws_startDate w + 6]"
    by (simp only: days)
  have "map ds_date (ws_dailyBreakdown w) = [startOfWeek d 1..endOfWeek d 1]"
    by (simp add: b daily_of_def comp_def)
  then have dd: "map ds_date (ws_dailyBreakdown w)
         = [ws_startDate w, ws_startDate w + 1, ws_startDate w + 2, ws_startDate w + 3,
            ws_startDate w + 4, ws_startDate w + 5, ws_startDate w + 6]"
    by (simp only: days)
  have g: "getDay (ws_startDate w) = 1"
    by (simp only: s startOfWeek_monday)
  have le: "ws_startDate w \<le> d"
    by (simp only: s startOfWeek_le)
  have ge: "d \<le> ws_endDate w"
    by (simp only: e endOfWeek_ge)
  have se: "ws_endDate w = ws_startDate w + 6"
    by (simp only: s e endOfWeek_startOfWeek)
  show ?thesis
    by (rule exI [of _ w]) (intro conjI w g le ge se m dd t)
qed

text \<open>
  Claim C5: for every activity of the weekly breakdown, \<open>changePercentage\<close> is
  \<open>(current - previous) / previous \<times> 100\<close> when the previous week's minutes are positive,
  100 when they are 0 and the current week's are positive, and 0 when both are 0; the
  entry's minutes are the minutes logged for its activity type in the week, its previous
  minutes those logged in the seven days before; and the breakdown is sorted by the current
  week's minutes, descending.
\<close>

theorem weekly_change_percentage:
  "\<exists>w. getWeeklyStats acts lgs d = Inr w
     \<and> (\<forall>a \<in> set (ws_activityBreakdown w).
           (wa_previousWeekMinutes a > 0 \<longrightarrow>
              wa_changePercentage a =
                Finite (of_int (wa_minutes a - wa_previousWeekMinutes a)
                          / of_int (wa_previousWeekMinutes a) * 100))
         \<and> (wa_previousWeekMinutes a = 0 \<and> wa_minutes a > 0 \<longrightarrow>
              wa_changePercentage a = Finite 100)
         \<and> (wa_previousWeekMinutes a = 0 \<and> wa_minutes a = 0 \<longrightarrow>
              wa_changePercentage a = Finite 0)
         \<and> (\<exists>t. wa_activityType a = Some t
                \<and> wa_minutes a = week_minutes lgs (at_id t) (ws_startDate w) (ws_endDate w)
                \<and> wa_previousWeekMinutes a
                    = week_minutes lgs (at_id t) (ws_startDate w - 7) (ws_endDate w - 7)))
     \<and> sorted_wrt (\<lambda>a b. wa_minutes a \<ge> wa_minutes b) (ws_activityBreakdown w)"
proof -
  obtain w where
    w: "getWeeklyStats acts lgs d = Inr w"
    and s: "ws_startDate w = startOfWeek d 1"
    and e: "ws_endDate w = endOfWeek d 1"
    and b: "ws_activityBreakdown w
              = weekly_breakdown acts (week_objects lgs (startOfWeek d 1) (endOfWeek d 1))"
    by (rule getWeeklyStats_fields)
  have entry: "(wa_previousWeekMinutes a > 0 \<longrightarrow>
              wa_changePercentage a =
                Finite (of_int (wa_minutes a - wa_previousWeekMinutes a)
                          / of_int (wa_previousWeekMinutes a) * 100))
         \<and> (wa_previousWeekMinutes a = 0 \<and> wa_minutes a > 0 \<longrightarrow>
              wa_changePercentage a = Finite 100)
         \<and> (wa_previousWeekMinutes a = 0 \<and> wa_minutes a = 0 \<longrightarrow>
              wa_changePercentage a = Finite 0)
         \<and> (\<exists>t. wa_activityType a = Some t
                \<and> wa_minutes a = week_minutes lgs (at_id t) (ws_startDate w) (ws_endDate w)
                \<and> wa_previousWeekMinutes a
                    = week_minutes lgs (at_id t) (ws_startDate w - 7) (ws_endDate w - 7))"
    if "a \<in> set (ws_activityBreakdown w)" for a
  proof -
    from that have in_bd:
      "a \<in> set (weekly_breakdown acts (week_objects lgs (startOfWeek d 1) (endOfWeek d 1)))"
      by (simp only: b)
    note facts = weekly_breakdown_entry [OF in_bd endOfWeek_startOfWeek]
    from facts(2) have "(wa_previousWeekMinutes a > 0 \<longrightarrow>
              wa_changePercentage a =
                Finite (of_int (wa_minutes a - wa_previousWeekMinutes a)
                          / of_int (wa_previousWeekMinutes a) * 100))
         \<and> (wa_previousWeekMinutes a = 0 \<and> wa_minutes a > 0 \<longrightarrow>
              wa_changePercentage a = Finite 100)
         \<and> (wa_previousWeekMinutes a = 0 \<and> wa_minutes a = 0 \<longrightarrow>
              wa_changePercentage a = Finite 0)"
      by simp
    moreover from facts(1) have "\<exists>t. wa_activityType a = Some t
                \<and> wa_minutes a = week_minutes lgs (at_id t) (ws_startDate w) (ws_endDate w)
                \<and> wa_previousWeekMinutes a
                    = week_minutes lgs (at_id t) (ws_startDate w - 7) (ws_endDate w - 7)"
      by (simp only: s e)
    ultimately show ?thesis by (simp only: simp_thms)
  qed
  have sorted: "sorted_wrt (\<lambda>a b. wa_minutes a \<ge> wa_minutes b) (ws_activityBreakdown w)"
    by (simp only: b sorted_weekly_breakdown)
  show ?thesis
    by (rule exI [of _ w]) (intro conjI ballI w entry sorted)
qed

theorem weekly_rollup_witness:
  "\<exists>w. getWeeklyStats defaultActivities
          [\<lparr>log_id = ''log-1'', log_userId = None, log_activityTypeId = ''1'', log_date = 19723,
            log_minutes = 60, log_notes = None, log_createdAt = 1\<rparr>,
           \<lparr>log_id = ''log-2'', log_userId = None, log_activityTypeId = ''6'', log_date = 19724,
            log_minutes = 30, log_notes = None, log_createdAt = 2\<rparr>] 19725 = Inr w
     \<and> ws_startDate w = 19723
     \<and> ws_endDate w = 19729
     \<and> map ds_totalMinutes (ws_dailyBreakdown w) = [60, 30, 0, 0, 0, 0, 0]
     \<and> ws_totalMinutes w = 90"
proof -
  let ?lgs = "[\<lparr>log_id = ''log-1'', log_userId = None, log_activityTypeId = ''1'', log_date = 19723,
            log_minutes = 60, log_notes = None, log_createdAt = 1\<rparr>,
           \<lparr>log_id = ''log-2'', log_userId = None, log_activityTypeId = ''6'', log_date = 19724,
            log_minutes = 30, log_notes = None, log_createdAt = 2\<rparr>]"
  from weekly_rollup_of_monday_week [of defaultActivities ?lgs 19725]
  obtain w where w: "getWeeklyStats defaultActivities ?lgs 19725 = Inr w"
    and g: "getDay (ws_startDate w) = 1"
    and le: "ws_startDate w \<le> 19725" and ge: "19725 \<le> ws_endDate w"
    and se: "ws_endDate w = ws_startDate w + 6"
    and m: "map Inr (ws_dailyBreakdown w)
         = map (getDailyStats defaultActivities ?lgs)
             [ws_startDate w, ws_startDate w + 1, ws_startDate w + 2, ws_startDate w + 3,
              ws_startDate w + 4, ws_startDate w + 5, ws_startDate w + 6]"
    and t: "ws_totalMinutes w = sum_list (map ds_totalMinutes (ws_dailyBreakdown w))"
    by blast
  have start: "ws_startDate w = 19723"
  proof -
    from le ge se have "ws_startDate w = 19719 \<or> ws_startDate w = 19720
        \<or> ws_startDate w = 19721 \<or> ws_startDate w = 19722 \<or> ws_startDate w = 19723
        \<or> ws_startDate w = 19724 \<or> ws_startDate w = 19725"
      by arith
    with g show ?thesis by (auto simp add: getDay_def)
  qed
  have totals: "map (\<lambda>r. case r of Inr s \<Rightarrow> ds_totalMinutes s | Inl e \<Rightarrow> 0)
      (map (getDailyStats defaultActivities ?lgs)
         [19723, 19724, 19725, 19726, 19727, 19728, 19729]) = [60, 30, 0, 0, 0, 0, 0]"
    by (simp add: getDailyStats_Inr daily_of_def)
  have "map ds_totalMinutes (ws_dailyBreakdown w)
      = map (\<lambda>r. case r of Inr s \<Rightarrow> ds_totalMinutes s | Inl e \<Rightarrow> 0)
          (map (Inr :: DailyStats \<Rightarrow> error + DailyStats) (ws_dailyBreakdown w))"
    by (simp add: comp_def)
  also have "\<dots> = [60, 30, 0, 0, 0, 0, 0]"
    unfolding m start using totals by simp
  finally have daily: "map ds_totalMinutes (ws_dailyBreakdown w) = [60, 30, 0, 0, 0, 0, 0]" .
  from t daily have total: "ws_totalMinutes w = 90" by simp
  from se start have "ws_endDate w = 19729" by simp
  with w start daily total show ?thesis
    by (intro exI [of _ w]) simp
qed

theorem weekly_change_percentage_witness:
  "\<exists>w. getWeeklyStats defaultActivities
          [\<lparr>log_id = ''log-1'', log_userId = None, log_activityTypeId = ''6'', log_date = 19724,
            log_minutes = 30, log_notes = None, log_createdAt = 1\<rparr>,
           \<lparr>log_id = ''log-2'', log_userId = None, log_activityTypeId = ''1'', log_date = 19723,
            log_minutes = 60, log_notes = None, log_createdAt = 2\<rparr>,
           \<lparr>log_id = ''log-3'', log_userId = None, log_activityTypeId = ''1'', log_date = 19716,
            log_minutes = 50, log_notes = None, log_createdAt = 3\<rparr>] 19725 = Inr w
     \<and> map (\<lambda>a. (wa_minutes a, wa_previousWeekMinutes a)) (ws_activityBreakdown w)
         = [(60, 50), (30, 0)]
     \<and> map wa_changePercentage (ws_activityBreakdown w) = [Finite 20, Finite 100]"
proof -
  let ?lgs = "[\<lparr>log_id = ''log-1'', log_userId = None, log_activityTypeId = ''6'', log_date = 19724,
            log_minutes = 30, log_notes = None, log_createdAt = 1\<rparr>,
           \<lparr>log_id = ''log-2'', log_userId = None, log_activityTypeId = ''1'', log_date = 19723,
            log_minutes = 60, log_notes = None, log_createdAt = 2\<rparr>,
           \<lparr>log_id = ''log-3'', log_userId = None, log_activityTypeId = ''1'', log_date = 19716,
            log_minutes = 50, log_notes = None, log_createdAt = 3\<rparr>]"
  have week: "startOfWeek 19725 1 = 19723" "endOfWeek 19725 1 = 19729"
    by (simp_all add: startOfWeek_def endOfWeek_def getDay_def)
  have bd: "map (\<lambda>a. (wa_minutes a, wa_previousWeekMinutes a))
      (weekly_breakdown defaultActivities (week_objects ?lgs 19723 19729)) = [(60, 50), (30, 0)]"
    by (simp add: weekly_breakdown_def week_objects_def weekly_entry_def subWeeks_def
          add_minutes_def object_entries_def is_array_index_def is_digit_def parse_nat_def
          getActivityById_def defaultActivities_def default_activity_def)
  from weekly_change_percentage [of defaultActivities ?lgs 19725]
  obtain w where w: "getWeeklyStats defaultActivities ?lgs 19725 = Inr w"
    and c: "\<forall>a \<in> set (ws_activityBreakdown w).
           (wa_previousWeekMinutes a > 0 \<longrightarrow>
              wa_changePercentage a =
                Finite (of_int (wa_minutes a - wa_previousWeekMinutes a)
                          / of_int (wa_previousWeekMinutes a) * 100))
         \<and> (wa_previousWeekMinutes a = 0 \<and> wa_minutes a > 0 \<longrightarrow>
              wa_changePercentage a = Finite 100)"
    by blast
  obtain w' where w': "getWeeklyStats defaultActivities ?lgs 19725 = Inr w'"
    and b': "ws_activityBreakdown w'
              = weekly_breakdown defaultActivities
                  (week_objects ?lgs (startOfWeek 19725 1) (endOfWeek 19725 1))"
    by (rule getWeeklyStats_fields)
  from w w' have "w' = w" by simp
  with b' bd have mp: "map (\<lambda>a. (wa_minutes a, wa_previousWeekMinutes a)) (ws_activityBreakdown w)
         = [(60, 50), (30, 0)]"
    by (simp only: week)
  then obtain a1 a2 where l: "ws_activityBreakdown w = [a1, a2]"
    and a1: "wa_minutes a1 = 60" "wa_previousWeekMinutes a1 = 50"
    and a2: "wa_minutes a2 = 30" "wa_previousWeekMinutes a2 = 0"
    by (auto simp add: map_eq_Cons_conv)
  from c l a1 a2 have "wa_changePercentage a1 = Finite 20" and "wa_changePercentage a2 = Finite 100"
    by simp_all
  with l have "map wa_changePercentage (ws_activityBreakdown w) = [Finite 20, Finite 100]"
    by simp
  with w mp show ?thesis
    by (intro exI [of _ w]) simp
qed

section \<open>Monthly statistics\<close>

subsection \<open>Suggestions\<close>

lemma find_sorted_conj:
  assumes "sorted_wrt (\<lambda>a b. ta_minutes a \<ge> ta_minutes b) xs"
    and "\<And>a b. E b \<Longrightarrow> ta_minutes a \<ge> ta_minutes b \<Longrightarrow> E a"
  shows "find (\<lambda>a. Q a \<and> E a) xs
           = (case find Q xs of None \<Rightarrow> None | Some a \<Rightarrow> if E a then Some a else None)"
  using assms(1)
proof (induction xs)
  case Nil
  show ?case by simp
next
  case (Cons x xs)
  show ?case
  proof (cases "Q x")
    case False
    with Cons show ?thesis by simp
  next
    case True
    show ?thesis
    proof (cases "E x")
      case True
      with \<open>Q x\<close> show ?thesis by simp
    next
      case False
      have "\<not> E y" if "y \<in> set xs" for y
      proof
        assume "E y"
        moreover from Cons.prems that have "ta_minutes x \<ge> ta_minutes y" by simp
        ultimately have "E x" by (rule assms(2))
        with False show False ..
      qed
      then have "find (\<lambda>a. Q a \<and> E a) xs = None"
        by (simp add: find_None_iff)
      with True False show ?thesis by simp
    qed
  qed
qed

lemma exceeds_mono:
  "(of_int (ta_minutes b) :: rat) > of_int tot * (1 / 4) \<Longrightarrow> ta_minutes a \<ge> ta_minutes b \<Longrightarrow>
   (of_int (ta_minutes a) :: rat) > of_int tot * (1 / 4)"
proof -
  assume "(of_int (ta_minutes b) :: rat) > of_int tot * (1 / 4)" and "ta_minutes a \<ge> ta_minutes b"
  then have "(of_int (ta_minutes b) :: rat) \<le> of_int (ta_minutes a)" by simp
  with \<open>(of_int (ta_minutes b) :: rat) > of_int tot * (1 / 4)\<close>
  show ?thesis by (rule less_le_trans)
qed

lemma find_in_set: "find P xs = Some a \<Longrightarrow> a \<in> set xs \<and> P a"
  by (auto simp add: find_Some_iff)

lemma rule_limit_leisure_first:
  assumes "sorted_wrt (\<lambda>a b. ta_minutes a \<ge> ta_minutes b) xs"
  shows "rule_limit_leisure xs tot =
     (case find (\<lambda>a. named ''Social Media'' a \<or> named ''Gaming'' a) xs of
        None \<Rightarrow> []
      | Some a \<Rightarrow>
          if (of_int (ta_minutes a) :: rat) > of_int tot * (1 / 4) then
            (case ta_activityType a of
               None \<Rightarrow> []
             | Some t \<Rightarrow> [''You spent too much time on '' @ at_name t
                           @ ''. Try limiting it to improve productivity.''])
          else [])"
proof -
  have "find (\<lambda>a. (named ''Social Media'' a \<or> named ''Gaming'' a)
                     \<and> (of_int (ta_minutes a) :: rat) > of_int tot * (1 / 4)) xs
      = (case find (\<lambda>a. named ''Social Media'' a \<or> named ''Gaming'' a) xs of
           None \<Rightarrow> None
         | Some a \<Rightarrow> if (of_int (ta_minutes a) :: rat) > of_int tot * (1 / 4) then Some a else None)"
    using assms by (rule find_sorted_conj) (rule exceeds_mono)
  then show ?thesis
    by (simp add: rule_limit_leisure_def split: option.splits)
qed

lemma find_e_name:
  assumes "list_all (\<lambda>a. ta_activityType a \<noteq> None) xs"
  shows "find_e (\<lambda>a. bind_e (name_of (ta_activityType a)) (\<lambda>n. Inr (P n))) xs
           = Inr (find (\<lambda>a. \<exists>n. map_option at_name (ta_activityType a) = Some n \<and> P n) xs)"
proof (rule find_e_total)
  show "list_all (\<lambda>x. bind_e (name_of (ta_activityType x)) (\<lambda>n. Inr (P n))
                       = Inr (\<exists>n. map_option at_name (ta_activityType x) = Some n \<and> P n)) xs"
    using assms by (induction xs) auto
qed

lemma named_alt:
  "(\<lambda>a. \<exists>n. map_option at_name (ta_activityType a) = Some n \<and> n = m) = named m"
  "(\<lambda>a. \<exists>n. map_option at_name (ta_activityType a) = Some n \<and> (n = m \<or> n = m'))
     = (\<lambda>a. named m a \<or> named m' a)"
  by (auto simp add: named_def fun_eq_iff)

lemma generateMonthlySuggestions_rules:
  assumes defined: "list_all (\<lambda>a. ta_activityType a \<noteq> None) xs"
    and sorted: "sorted_wrt (\<lambda>a b. ta_minutes a \<ge> ta_minutes b) xs"
  shows "generateMonthlySuggestions xs tot = Inr (five_rules xs tot)"
proof -
  have some: "ta_activityType a \<noteq> None" if "a \<in> set xs" for a
    using defined that by (simp add: list_all_iff)
  have first: "bind_e
      (case find (\<lambda>a. named ''Social Media'' a \<or> named ''Gaming'' a) xs of
         None \<Rightarrow> Inr []
       | Some a \<Rightarrow>
           if (of_int (ta_minutes a) :: rat) > of_int tot * (1 / 4) then
             bind_e (name_of (ta_activityType a))
               (\<lambda>n. Inr [''You spent too much time on '' @ n
                            @ ''. Try limiting it to improve productivity.''])
           else Inr []) f
      = f (rule_limit_leisure xs tot)" for f :: "string list \<Rightarrow> error + string list"
  proof (cases "find (\<lambda>a. named ''Social Media'' a \<or> named ''Gaming'' a) xs")
    case None
    then show ?thesis by (simp add: rule_limit_leisure_first [OF sorted])
  next
    case (Some a)
    then have "a \<in> set xs" by (auto dest: find_in_set)
    then obtain t where "ta_activityType a = Some t" using some by blast
    with Some show ?thesis by (simp add: rule_limit_leisure_first [OF sorted])
  qed
  have sleep: "(if js_lt (case find (named ''Sleep'') xs of
                          Some a \<Rightarrow> js_div (ta_minutes a) 30 | None \<Rightarrow> Finite 0) 420
               then [''Try sleeping earlier. Aim for 7-8 hours for better focus.'']
               else []) = rule_sleep xs"
    by (simp add: rule_sleep_def js_div_def split: option.splits)
  have exercise: "(if (case find (named ''Exercise'') xs of
                         None \<Rightarrow> True | Some a \<Rightarrow> ta_minutes a < 600)
                   then [''Add 30 minutes of exercise daily for better balance and energy.'']
                   else []) = rule_exercise xs"
    by (simp add: rule_exercise_def split: option.splits)
  have productive: "(if (of_int (sum_list (map ta_minutes
             (filter (\<lambda>a. map_option at_category (ta_activityType a) = Some ''productive'') xs))) :: rat)
                       > of_int tot * (1 / 2)
      then [''Great work on staying productive! Keep up the momentum.'']
      else []) = rule_productive xs tot"
    by (simp add: rule_productive_def)
  show ?thesis
    unfolding generateMonthlySuggestions_def find_e_name [OF defined] named_alt
      filter_e_category [OF defined] bind_e_Inr Let_def first foldl_plus
    by (simp only: sleep exercise productive five_rules_def with_fallback_def
          append_assoc length_0_conv add_0)
qed


subsection \<open>The monthly statistics function returns\<close>

lemma list_all_top_activities:
  "list_all (\<lambda>a. ta_activityType a \<noteq> None) (top_activities acts lgs d)"
proof -
  have "set (top_activities acts lgs d)
      \<subseteq> set (filter (\<lambda>a. ta_activityType a \<noteq> None)
             (map (\<lambda>(activityTypeId, minutes).
                     \<lparr>ta_activityType = getActivityById acts activityTypeId,
                      ta_minutes = minutes\<rparr>)
                (object_entries
                   (day_breakdown (filter (\<lambda>l. format_month (log_date l) = format_month d) lgs)))))"
    unfolding top_activities_def
    by (rule subset_trans [OF set_take_subset]) simp
  then show ?thesis
    by (auto simp add: list_all_iff)
qed

lemma sorted_top_activities:
  "sorted_wrt (\<lambda>a b. ta_minutes a \<ge> ta_minutes b) (top_activities acts lgs d)"
proof -
  have "sorted (map (\<lambda>a. - ta_minutes a) (top_activities acts lgs d))"
    unfolding top_activities_def take_map [symmetric]
    by (rule sorted_wrt_take) (rule sorted_sort_key)
  then show ?thesis
    by (simp add: sorted_map sorted_wrt_iff_nth_less)
qed

lemma getMonthlyStats_Inr:
  "getMonthlyStats acts lgs d =
     Inr \<lparr>ms_month = format_month d,
          ms_totalMinutes = sum_list (map hm_minutes (month_heatmap lgs d)),
          ms_dailyHeatmap = month_heatmap lgs d,
          ms_mostProductiveDay =
            (case sorted_by_minutes lgs d of [] \<Rightarrow> None | first # rest \<Rightarrow> Some (hm_date first)),
          ms_leastProductiveDay =
            (if sorted_by_minutes lgs d = [] then None
             else Some (hm_date (last (sorted_by_minutes lgs d)))),
          ms_topActivities = top_activities acts lgs d,
          ms_suggestions =
            five_rules (top_activities acts lgs d) (sum_list (map hm_minutes (month_heatmap lgs d)))\<rparr>"
proof -
  have "getMonthlyStats acts lgs d =
      bind_e (generateMonthlySuggestions (top_activities acts lgs d)
                (sum_list (map hm_minutes (month_heatmap lgs d))))
        (\<lambda>suggestions.
           Inr \<lparr>ms_month = format_month d,
                ms_totalMinutes = sum_list (map hm_minutes (month_heatmap lgs d)),
                ms_dailyHeatmap = month_heatmap lgs d,
                ms_mostProductiveDay =
                  (case sorted_by_minutes lgs d of [] \<Rightarrow> None
                   | first # rest \<Rightarrow> Some (hm_date first)),
                ms_leastProductiveDay =
                  (if sorted_by_minutes lgs d = [] then None
                   else Some (hm_date (last (sorted_by_minutes lgs d)))),
                ms_topActivities = top_activities acts lgs d,
                ms_suggestions = suggestions\<rparr>)"
    unfolding getMonthlyStats_def Let_def foldl_plus eachDayOfInterval_def
    by (simp only: month_heatmap_def sorted_by_minutes_def top_activities_def day_breakdown_def
          day_minutes_def add_0)
  then show ?thesis
    by (simp only: generateMonthlySuggestions_rules [OF list_all_top_activities sorted_top_activities]
          bind_e_Inr)
qed


subsection \<open>The list of top activities\<close>








subsection \<open>The rule that the server's function does not have\<close>

text \<open>
  The server's \<open>generateSuggestions\<close> has the rules about "Social Media" or "Gaming", sleep
  and exercise and the generic sentence, and no rule about the productive activities, which
  the client's \<open>generateMonthlySuggestions\<close> has: with "Work" (productive) the only
  activity, at 1000 of 1000 minutes, the server returns the sleep and exercise sentences
  and the client the positive-reinforcement sentence as well.
\<close>

lemma generateSuggestions_lacks_productive_rule:
  "generateSuggestions
      [\<lparr>ta_activityType = Some (default_activity ''1'' ''Work'' ''Briefcase'' ''#3B82F6'' ''productive''),
        ta_minutes = 1000\<rparr>] 1000
     = Inr [''Try sleeping earlier. Aim for 7-8 hours for better focus.'',
            ''Add 30 minutes of exercise daily for better balance and energy.'']
   \<and> generateMonthlySuggestions
      [\<lparr>ta_activityType = Some (default_activity ''1'' ''Work'' ''Briefcase'' ''#3B82F6'' ''productive''),
        ta_minutes = 1000\<rparr>] 1000
     = Inr [''Try sleeping earlier. Aim for 7-8 hours for better focus.'',
            ''Add 30 minutes of exercise daily for better balance and energy.'',
            ''Great work on staying productive! Keep up the momentum.'']"
  by (simp add: generateSuggestions_def generateMonthlySuggestions_def Let_def
        default_activity_def)

subsection \<open>Claim about the monthly suggestions\<close>




subsection \<open>First and last element of a stable sort\<close>

lemma last_filter_last: "xs \<noteq> [] \<Longrightarrow> P (last xs) \<Longrightarrow> last (filter P xs) = last xs"
  by (induction xs) (auto simp add: filter_empty_conv)

lemma sorted_hd_le: "sorted xs \<Longrightarrow> x \<in> set xs \<Longrightarrow> hd xs \<le> (x :: 'a :: linorder)"
  by (cases xs) auto

lemma sorted_le_last: "sorted xs \<Longrightarrow> x \<in> set xs \<Longrightarrow> (x :: 'a :: linorder) \<le> last xs"
  by (induction xs) auto

lemma sort_key_first:
  fixes f :: "'a \<Rightarrow> int"
  assumes "sort_key f xs = x # rest"
  shows "x \<in> set xs" and "\<forall>y \<in> set xs. f x \<le> f y"
    and "filter (\<lambda>y. f y = f x) xs \<noteq> []" and "x = hd (filter (\<lambda>y. f y = f x) xs)"
proof -
  have set: "set xs = set (x # rest)"
    using assms set_sort [of f xs] by simp
  then show "x \<in> set xs" by simp
  have "sorted (map f (x # rest))"
    using sorted_sort_key [of f xs] by (simp only: assms)
  then show "\<forall>y \<in> set xs. f x \<le> f y"
    unfolding set by auto
  have st: "filter (\<lambda>y. f y = f x) xs = filter (\<lambda>y. f y = f x) (x # rest)"
    using sort_key_stable [of f "f x" xs] by (simp only: assms)
  then show "filter (\<lambda>y. f y = f x) xs \<noteq> []" by simp
  from st show "x = hd (filter (\<lambda>y. f y = f x) xs)" by simp
qed

lemma sort_key_final:
  fixes f :: "'a \<Rightarrow> int"
  assumes "xs \<noteq> []" and "x = last (sort_key f xs)"
  shows "x \<in> set xs" and "\<forall>y \<in> set xs. f y \<le> f x"
    and "filter (\<lambda>y. f y = f x) xs \<noteq> []" and "x = last (filter (\<lambda>y. f y = f x) xs)"
proof -
  let ?s = "sort_key f xs"
  have ne: "?s \<noteq> []"
    using assms(1) length_sort [of f xs] by (cases ?s) auto
  have "x \<in> set ?s" unfolding assms(2) using ne by (rule last_in_set)
  then show xin: "x \<in> set xs" by simp
  have "f y \<le> f x" if "y \<in> set xs" for y
  proof -
    have "f y \<in> set (map f ?s)" using that by simp
    then have "f y \<le> last (map f ?s)"
      by (rule sorted_le_last [OF sorted_sort_key])
    then show ?thesis by (simp add: last_map [OF ne] assms(2))
  qed
  then show "\<forall>y \<in> set xs. f y \<le> f x" by blast
  have st: "filter (\<lambda>y. f y = f x) xs = filter (\<lambda>y. f y = f x) ?s"
    by (rule sort_key_stable [symmetric])
  from xin show "filter (\<lambda>y. f y = f x) xs \<noteq> []"
    by (auto simp add: filter_empty_conv)
  show "x = last (filter (\<lambda>y. f y = f x) xs)"
    unfolding st using last_filter_last [OF ne, of "\<lambda>y. f y = f x"] assms(2) by simp
qed

subsection \<open>The heatmap and its extreme days\<close>

lemma positive_heatmap:
  "filter (\<lambda>e. hm_minutes e > 0) (month_heatmap lgs d)
     = map (\<lambda>day. \<lparr>hm_date = day, hm_minutes = day_minutes lgs day\<rparr>)
         (filter (\<lambda>day. day_minutes lgs day > 0) [startOfMonth d..endOfMonth d])"
  by (simp add: month_heatmap_def filter_map comp_def)

lemma tied_heatmap:
  "filter (\<lambda>e. - hm_minutes e = k) (filter (\<lambda>e. hm_minutes e > 0) (month_heatmap lgs d))
     = map (\<lambda>day. \<lparr>hm_date = day, hm_minutes = day_minutes lgs day\<rparr>)
         (filter (\<lambda>day. - day_minutes lgs day = k)
            (filter (\<lambda>day. day_minutes lgs day > 0) [startOfMonth d..endOfMonth d]))"
  unfolding positive_heatmap by (simp add: filter_map comp_def)

lemma sorted_by_minutes_empty:
  "sorted_by_minutes lgs d = [] \<longleftrightarrow>
     (\<forall>day \<in> {startOfMonth d..endOfMonth d}. day_minutes lgs day \<le> 0)"
proof -
  have "sorted_by_minutes lgs d = [] \<longleftrightarrow>
      filter (\<lambda>e. hm_minutes e > 0) (month_heatmap lgs d) = []"
    unfolding sorted_by_minutes_def
    using length_sort [of "\<lambda>a. - hm_minutes a" "filter (\<lambda>e. hm_minutes e > 0) (month_heatmap lgs d)"]
    by (metis length_0_conv)
  also have "\<dots> \<longleftrightarrow> (\<forall>day \<in> {startOfMonth d..endOfMonth d}. day_minutes lgs day \<le> 0)"
    unfolding positive_heatmap by (auto simp add: filter_empty_conv not_less)
  finally show ?thesis .
qed

lemma most_productive:
  assumes "sorted_by_minutes lgs d = x # rest"
  shows "hm_date x \<in> {startOfMonth d..endOfMonth d}"
    and "0 < day_minutes lgs (hm_date x)"
    and "\<forall>day \<in> {startOfMonth d..endOfMonth d}.
           day_minutes lgs day \<le> day_minutes lgs (hm_date x)
           \<and> (day_minutes lgs day = day_minutes lgs (hm_date x) \<longrightarrow> hm_date x \<le> day)"
proof -
  let ?pos = "filter (\<lambda>day. day_minutes lgs day > 0) [startOfMonth d..endOfMonth d]"
  let ?mk = "\<lambda>day. \<lparr>hm_date = day, hm_minutes = day_minutes lgs day\<rparr>"
  let ?P = "filter (\<lambda>e. hm_minutes e > 0) (month_heatmap lgs d)"
  let ?ties = "filter (\<lambda>day. - day_minutes lgs day = - hm_minutes x) ?pos"
  note s = assms [unfolded sorted_by_minutes_def]
  note first = sort_key_first [OF s]
  from first(1) obtain b where b: "b \<in> set ?pos" and x: "x = ?mk b"
    unfolding positive_heatmap by auto
  from b x show in_month: "hm_date x \<in> {startOfMonth d..endOfMonth d}" by simp
  from b x show pos: "0 < day_minutes lgs (hm_date x)" by simp
  have mx: "hm_minutes x = day_minutes lgs (hm_date x)" using x by simp
  have ge: "day_minutes lgs day \<le> day_minutes lgs (hm_date x)"
    if "day \<in> {startOfMonth d..endOfMonth d}" for day
  proof (cases "day_minutes lgs day > 0")
    case True
    with that have "?mk day \<in> set ?P" unfolding positive_heatmap by simp
    with first(2) have "- hm_minutes x \<le> - hm_minutes (?mk day)" by blast
    then show ?thesis by (simp add: mx)
  next
    case False
    with pos show ?thesis by simp
  qed
  have ties_ne: "?ties \<noteq> []"
    using first(3) unfolding tied_heatmap by simp
  have xeq: "x = ?mk (hd ?ties)"
    using first(4) unfolding tied_heatmap hd_map [OF ties_ne] .
  have hd: "hm_date x = hd ?ties"
    using arg_cong [OF xeq, of hm_date] by (simp only: HeatmapDay.simps)
  have sorted_ties: "sorted ?ties"
    using sorted_filter [of "\<lambda>x. x", simplified] sorted_upto by blast
  have early: "hm_date x \<le> day"
    if "day \<in> {startOfMonth d..endOfMonth d}" and "day_minutes lgs day = day_minutes lgs (hm_date x)"
    for day
  proof -
    from that pos have "day \<in> set ?ties" by (simp add: mx)
    with sorted_ties show ?thesis unfolding hd by (rule sorted_hd_le)
  qed
  from ge early show "\<forall>day \<in> {startOfMonth d..endOfMonth d}.
           day_minutes lgs day \<le> day_minutes lgs (hm_date x)
           \<and> (day_minutes lgs day = day_minutes lgs (hm_date x) \<longrightarrow> hm_date x \<le> day)"
    by blast
qed

lemma least_productive:
  assumes "sorted_by_minutes lgs d \<noteq> []" and "x = last (sorted_by_minutes lgs d)"
  shows "hm_date x \<in> {startOfMonth d..endOfMonth d}"
    and "0 < day_minutes lgs (hm_date x)"
    and "\<forall>day \<in> {startOfMonth d..endOfMonth d}.
           0 < day_minutes lgs day \<longrightarrow>
             day_minutes lgs (hm_date x) \<le> day_minutes lgs day
             \<and> (day_minutes lgs day = day_minutes lgs (hm_date x) \<longrightarrow> day \<le> hm_date x)"
proof -
  let ?pos = "filter (\<lambda>day. day_minutes lgs day > 0) [startOfMonth d..endOfMonth d]"
  let ?mk = "\<lambda>day. \<lparr>hm_date = day, hm_minutes = day_minutes lgs day\<rparr>"
  let ?P = "filter (\<lambda>e. hm_minutes e > 0) (month_heatmap lgs d)"
  let ?ties = "filter (\<lambda>day. - day_minutes lgs day = - hm_minutes x) ?pos"
  have ne: "?P \<noteq> []"
    using assms(1) unfolding sorted_by_minutes_def by auto
  note final = sort_key_final [OF ne assms(2) [unfolded sorted_by_minutes_def]]
  from final(1) obtain b where b: "b \<in> set ?pos" and x: "x = ?mk b"
    unfolding positive_heatmap by auto
  from b x show in_month: "hm_date x \<in> {startOfMonth d..endOfMonth d}" by simp
  from b x show pos: "0 < day_minutes lgs (hm_date x)" by simp
  have mx: "hm_minutes x = day_minutes lgs (hm_date x)" using x by simp
  have le: "day_minutes lgs (hm_date x) \<le> day_minutes lgs day"
    if "day \<in> {startOfMonth d..endOfMonth d}" and "0 < day_minutes lgs day" for day
  proof -
    from that have "?mk day \<in> set ?P" unfolding positive_heatmap by simp
    with final(2) have "- hm_minutes (?mk day) \<le> - hm_minutes x" by blast
    then show ?thesis by (simp add: mx)
  qed
  have ties_ne: "?ties \<noteq> []"
    using final(3) unfolding tied_heatmap by simp
  have xeq: "x = ?mk (last ?ties)"
    using final(4) unfolding tied_heatmap last_map [OF ties_ne] .
  have last: "hm_date x = last ?ties"
    using arg_cong [OF xeq, of hm_date] by (simp only: HeatmapDay.simps)
  have sorted_ties: "sorted ?ties"
    using sorted_filter [of "\<lambda>x. x", simplified] sorted_upto by blast
  have late: "day \<le> hm_date x"
    if "day \<in> {startOfMonth d..endOfMonth d}" and "day_minutes lgs day = day_minutes lgs (hm_date x)"
    for day
  proof -
    from that pos have "day \<in> set ?ties" by (simp add: mx)
    with sorted_ties show ?thesis unfolding last by (rule sorted_le_last)
  qed
  from le late show "\<forall>day \<in> {startOfMonth d..endOfMonth d}.
           0 < day_minutes lgs day \<longrightarrow>
             day_minutes lgs (hm_date x) \<le> day_minutes lgs day
             \<and> (day_minutes lgs day = day_minutes lgs (hm_date x) \<longrightarrow> day \<le> hm_date x)"
    by blast
qed

lemma calendar_examples:
  shows "civil_from_days 0 = (1970, 1, 1)"
    and "civil_from_days 11016 = (2000, 2, 29)"
    and "civil_from_days 19782 = (2024, 2, 29)"
    and "civil_from_days 19783 = (2024, 3, 1)"
    and "civil_from_days (- 25508) = (1900, 3, 1)"
    and "(startOfMonth 19400, endOfMonth 19400) = (19389, 19416)"
    and "format_month 19770 = (2024, 2)"
    and "map getDay [19723, 19724, 19725, 19726, 19727, 19728, 19729] = [1, 2, 3, 4, 5, 6, 0]"
  by code_simp+

subsection \<open>Claim about the heatmap\<close>

text \<open>
  Claim C3: for every anchor date and set of logs, the monthly statistics are computed (the
  function returns normally); the heatmap has one entry for each day from the first to the
  last day of the month, in ascending order, holding the minutes logged on that day (zero
  for a day without logs); \<open>mostProductiveDay\<close> is the earliest day with the largest minutes
  among the days with positive minutes, \<open>leastProductiveDay\<close> the latest day with the
  smallest positive minutes, both empty when no day has positive minutes; they are the first
  and the last entry of the stable sort, by descending minutes, of the heatmap's entries
  with positive minutes.
\<close>

theorem monthly_heatmap_and_extreme_days:
  "\<exists>m. getMonthlyStats acts lgs d = Inr m
     \<and> map hm_date (ms_dailyHeatmap m) = [startOfMonth d..endOfMonth d]
     \<and> (\<forall>e \<in> set (ms_dailyHeatmap m). hm_minutes e = day_minutes lgs (hm_date e))
     \<and> ms_mostProductiveDay m =
          (case sort_key (\<lambda>e. - hm_minutes e) (filter (\<lambda>e. hm_minutes e > 0) (ms_dailyHeatmap m)) of
             [] \<Rightarrow> None | first # rest \<Rightarrow> Some (hm_date first))
     \<and> ms_leastProductiveDay m =
          (if sort_key (\<lambda>e. - hm_minutes e) (filter (\<lambda>e. hm_minutes e > 0) (ms_dailyHeatmap m)) = []
           then None
           else Some (hm_date (last (sort_key (\<lambda>e. - hm_minutes e)
                         (filter (\<lambda>e. hm_minutes e > 0) (ms_dailyHeatmap m))))))
     \<and> (case ms_mostProductiveDay m of
           None \<Rightarrow> \<forall>day \<in> {startOfMonth d..endOfMonth d}. day_minutes lgs day \<le> 0
         | Some best \<Rightarrow>
             best \<in> {startOfMonth d..endOfMonth d} \<and> 0 < day_minutes lgs best
             \<and> (\<forall>day \<in> {startOfMonth d..endOfMonth d}.
                   day_minutes lgs day \<le> day_minutes lgs best
                   \<and> (day_minutes lgs day = day_minutes lgs best \<longrightarrow> best \<le> day)))
     \<and> (case ms_leastProductiveDay m of
           None \<Rightarrow> \<forall>day \<in> {startOfMonth d..endOfMonth d}. day_minutes lgs day \<le> 0
         | Some least \<Rightarrow>
             least \<in> {startOfMonth d..endOfMonth d} \<and> 0 < day_minutes lgs least
             \<and> (\<forall>day \<in> {startOfMonth d..endOfMonth d}.
                   0 < day_minutes lgs day \<longrightarrow>
                     day_minutes lgs least \<le> day_minutes lgs day
                     \<and> (day_minutes lgs day = day_minutes lgs least \<longrightarrow> day \<le> least)))"
proof -
  let ?s = "sorted_by_minutes lgs d"
  let ?m = "\<lparr>ms_month = format_month d,
          ms_totalMinutes = sum_list (map hm_minutes (month_heatmap lgs d)),
          ms_dailyHeatmap = month_heatmap lgs d,
          ms_mostProductiveDay =
            (case ?s of [] \<Rightarrow> None | first # rest \<Rightarrow> Some (hm_date first)),
          ms_leastProductiveDay = (if ?s = [] then None else Some (hm_date (last ?s))),
          ms_topActivities = top_activities acts lgs d,
          ms_suggestions =
            five_rules (top_activities acts lgs d) (sum_list (map hm_minutes (month_heatmap lgs d)))\<rparr>"
  have r: "getMonthlyStats acts lgs d = Inr ?m"
    by (rule getMonthlyStats_Inr)
  have dates: "map hm_date (ms_dailyHeatmap ?m) = [startOfMonth d..endOfMonth d]"
    by (simp add: month_heatmap_def comp_def)
  have minutes: "\<forall>e \<in> set (ms_dailyHeatmap ?m). hm_minutes e = day_minutes lgs (hm_date e)"
    by (auto simp add: month_heatmap_def)
  have most_def: "ms_mostProductiveDay ?m =
          (case sort_key (\<lambda>e. - hm_minutes e) (filter (\<lambda>e. hm_minutes e > 0) (ms_dailyHeatmap ?m)) of
             [] \<Rightarrow> None | first # rest \<Rightarrow> Some (hm_date first))"
    by (simp only: MonthlyStats.simps sorted_by_minutes_def)
  have least_def: "ms_leastProductiveDay ?m =
          (if sort_key (\<lambda>e. - hm_minutes e) (filter (\<lambda>e. hm_minutes e > 0) (ms_dailyHeatmap ?m)) = []
           then None
           else Some (hm_date (last (sort_key (\<lambda>e. - hm_minutes e)
                         (filter (\<lambda>e. hm_minutes e > 0) (ms_dailyHeatmap ?m))))))"
    by (simp only: MonthlyStats.simps sorted_by_minutes_def)
  have most: "case ms_mostProductiveDay ?m of
           None \<Rightarrow> \<forall>day \<in> {startOfMonth d..endOfMonth d}. day_minutes lgs day \<le> 0
         | Some best \<Rightarrow>
             best \<in> {startOfMonth d..endOfMonth d} \<and> 0 < day_minutes lgs best
             \<and> (\<forall>day \<in> {startOfMonth d..endOfMonth d}.
                   day_minutes lgs day \<le> day_minutes lgs best
                   \<and> (day_minutes lgs day = day_minutes lgs best \<longrightarrow> best \<le> day))"
  proof (cases ?s)
    case Nil
    then show ?thesis
      using sorted_by_minutes_empty [of lgs d] by simp
  next
    case (Cons x rest)
    from most_productive [OF Cons] Cons show ?thesis by simp
  qed
  have least: "case ms_leastProductiveDay ?m of
           None \<Rightarrow> \<forall>day \<in> {startOfMonth d..endOfMonth d}. day_minutes lgs day \<le> 0
         | Some least \<Rightarrow>
             least \<in> {startOfMonth d..endOfMonth d} \<and> 0 < day_minutes lgs least
             \<and> (\<forall>day \<in> {startOfMonth d..endOfMonth d}.
                   0 < day_minutes lgs day \<longrightarrow>
                     day_minutes lgs least \<le> day_minutes lgs day
                     \<and> (day_minutes lgs day = day_minutes lgs least \<longrightarrow> day \<le> least))"
  proof (cases "?s = []")
    case True
    then show ?thesis
      using sorted_by_minutes_empty [of lgs d] by simp
  next
    case False
    from least_productive [OF False refl] False show ?thesis by simp
  qed
  show ?thesis
    by (rule exI [of _ ?m]) (intro conjI r dates minutes most_def least_def most least)
qed

theorem monthly_heatmap_witness:
  "\<exists>m. getMonthlyStats defaultActivities
          [\<lparr>log_id = ''log-1'', log_userId = None, log_activityTypeId = ''1'', log_date = 19756,
            log_minutes = 10, log_notes = None, log_createdAt = 1\<rparr>,
           \<lparr>log_id = ''log-2'', log_userId = None, log_activityTypeId = ''5'', log_date = 19755,
            log_minutes = 10, log_notes = None, log_createdAt = 2\<rparr>] 19770 = Inr m
     \<and> map hm_date (ms_dailyHeatmap m) = [19754..19782]
     \<and> ms_mostProductiveDay m = Some 19755
     \<and> ms_leastProductiveDay m = Some 19756"
proof -
  let ?lgs = "[\<lparr>log_id = ''log-1'', log_userId = None, log_activityTypeId = ''1'', log_date = 19756,
            log_minutes = 10, log_notes = None, log_createdAt = 1\<rparr>,
           \<lparr>log_id = ''log-2'', log_userId = None, log_activityTypeId = ''5'', log_date = 19755,
            log_minutes = 10, log_notes = None, log_createdAt = 2\<rparr>]"
  have month: "startOfMonth 19770 = 19754" "endOfMonth 19770 = 19782"
    by code_simp+
  have dm: "day_minutes ?lgs day = (if day = 19755 \<or> day = 19756 then 10 else 0)" for day
    by (simp add: day_minutes_def)
  from monthly_heatmap_and_extreme_days [of defaultActivities ?lgs 19770]
  obtain m where m: "getMonthlyStats defaultActivities ?lgs 19770 = Inr m"
    and dates: "map hm_date (ms_dailyHeatmap m) = [19754..19782]"
    and most: "case ms_mostProductiveDay m of
           None \<Rightarrow> \<forall>day \<in> {19754..19782}. day_minutes ?lgs day \<le> 0
         | Some best \<Rightarrow>
             best \<in> {19754..19782} \<and> 0 < day_minutes ?lgs best
             \<and> (\<forall>day \<in> {19754..19782}.
                   day_minutes ?lgs day \<le> day_minutes ?lgs best
                   \<and> (day_minutes ?lgs day = day_minutes ?lgs best \<longrightarrow> best \<le> day))"
    and least: "case ms_leastProductiveDay m of
           None \<Rightarrow> \<forall>day \<in> {19754..19782}. day_minutes ?lgs day \<le> 0
         | Some least \<Rightarrow>
             least \<in> {19754..19782} \<and> 0 < day_minutes ?lgs least
             \<and> (\<forall>day \<in> {19754..19782}.
                   0 < day_minutes ?lgs day \<longrightarrow>
                     day_minutes ?lgs least \<le> day_minutes ?lgs day
                     \<and> (day_minutes ?lgs day = day_minutes ?lgs least \<longrightarrow> day \<le> least))"
    unfolding month by blast
  have best: "ms_mostProductiveDay m = Some 19755"
  proof (cases "ms_mostProductiveDay m")
    case None
    with most have "day_minutes ?lgs 19755 \<le> 0" by simp
    then show ?thesis by (simp add: dm)
  next
    case (Some best)
    with most have pos: "0 < day_minutes ?lgs best"
      and tie: "day_minutes ?lgs 19755 = day_minutes ?lgs best \<longrightarrow> best \<le> 19755"
      by simp_all
    from pos have "best = 19755 \<or> best = 19756" by (simp add: dm split: if_splits)
    with tie have "best = 19755" by (auto simp add: dm)
    with Some show ?thesis by simp
  qed
  have worst: "ms_leastProductiveDay m = Some 19756"
  proof (cases "ms_leastProductiveDay m")
    case None
    with least have "day_minutes ?lgs 19755 \<le> 0" by simp
    then show ?thesis by (simp add: dm)
  next
    case (Some l)
    with least have pos: "0 < day_minutes ?lgs l"
      and tie: "0 < day_minutes ?lgs 19756 \<longrightarrow>
                  (day_minutes ?lgs 19756 = day_minutes ?lgs l \<longrightarrow> 19756 \<le> l)"
      by simp_all
    from pos have "l = 19755 \<or> l = 19756" by (simp add: dm split: if_splits)
    with tie have "l = 19756" by (auto simp add: dm)
    with Some show ?thesis by simp
  qed
  from m dates best worst show ?thesis
    by (intro exI [of _ m]) simp
qed

end
